theory Spec2Isabelle
  imports Main "HOL-Library.AList"
begin

section \<open>The DingTalk stream monitor (extensions/dingtalk/src/monitor.ts)\<close>

text \<open>
  The monitor keeps its state in module-level variables: the single connection slot
  (\<open>currentClient\<close>, \<open>currentAccountId\<close>, \<open>currentPromise\<close>, \<open>currentStop\<close>) and the
  message dedup cache (\<open>processedMessageIds\<close>, \<open>processedMessageTimestamps\<close>). The model
  passes that state explicitly. Strings are lists of characters, JavaScript's \<open>Set\<close> is a
  duplicate-free list in insertion order, its \<open>Map\<close> an association list in insertion
  order, \<open>Date.now()\<close> is an integer argument (milliseconds), and a thrown exception is
  the \<open>Inl\<close> branch of a sum.

  What the model takes for granted about the collaborators: the functions \<open>log\<close> and
  \<open>error\<close> return without throwing; they, the methods of the SDK client and
  \<open>handleDingtalkMessage\<close> do not call back into the monitor while they run; and the
  fields of a decoded message are strings or absent, as \<open>DingtalkRawMessage\<close> declares
  them.
\<close>

subsection \<open>Dedup cache\<close>

record dedup_cache =
  processedMessageIds :: "string list"
  processedMessageTimestamps :: "(string \<times> int) list"

definition DEDUP_CACHE_MAX_SIZE :: nat where
  "DEDUP_CACHE_MAX_SIZE = 10000"

definition DEDUP_CACHE_TTL :: int where
  "DEDUP_CACHE_TTL = 5 * 60 * 1000"

definition empty_cache :: dedup_cache where
  "empty_cache = \<lparr>processedMessageIds = [], processedMessageTimestamps = []\<rparr>"

text \<open>\<open>Set.prototype.add\<close>: a value already present keeps its place.\<close>

definition set_add :: "string \<Rightarrow> string list \<Rightarrow> string list" where
  "set_add k xs = (if k \<in> set xs then xs else xs @ [k])"

text \<open>
  \<open>Map.prototype.set\<close> is \<open>AList.update\<close> (an existing key keeps its place, a new one
  goes last); \<open>delete\<close> on the set is \<open>removeAll\<close>, on the map \<open>AList.delete\<close>.
\<close>

definition delete_entry :: "string \<Rightarrow> dedup_cache \<Rightarrow> dedup_cache" where
  "delete_entry messageId c =
     c\<lparr>processedMessageIds := removeAll messageId (processedMessageIds c),
       processedMessageTimestamps := AList.delete messageId (processedMessageTimestamps c)\<rparr>"

text \<open>
  \<open>cleanupDedupCache\<close> walks the entries of the timestamp map and deletes the expired
  ones from both stores. Deleting the entry under the iterator does not disturb the
  iteration of a JavaScript \<open>Map\<close>, so the loop visits the entries that were there when it
  started.
\<close>

fun cleanup_loop :: "int \<Rightarrow> (string \<times> int) list \<Rightarrow> dedup_cache \<Rightarrow> dedup_cache" where
  "cleanup_loop now [] c = c"
| "cleanup_loop now ((messageId, timestamp) # rest) c =
     cleanup_loop now rest
       (if now - timestamp > DEDUP_CACHE_TTL then delete_entry messageId c else c)"

definition cleanupDedupCache :: "int \<Rightarrow> dedup_cache \<Rightarrow> dedup_cache" where
  "cleanupDedupCache now c = cleanup_loop now (processedMessageTimestamps c) c"

definition isMessageProcessed :: "string \<Rightarrow> dedup_cache \<Rightarrow> bool" where
  "isMessageProcessed messageId c = (messageId \<in> set (processedMessageIds c))"

text \<open>\<open>processedMessageTimestamps.keys().next().value\<close>: the first key, or undefined.\<close>

definition first_key :: "(string \<times> int) list \<Rightarrow> string option" where
  "first_key m = (case m of [] \<Rightarrow> None | (k, _) # _ \<Rightarrow> Some k)"

text \<open>
  \<open>if (oldestId)\<close> tests truthiness: it fails for undefined and for the empty string.
\<close>

definition evict_oldest :: "dedup_cache \<Rightarrow> dedup_cache" where
  "evict_oldest c =
     (case first_key (processedMessageTimestamps c) of
        None \<Rightarrow> c
      | Some oldestId \<Rightarrow> if oldestId = [] then c else delete_entry oldestId c)"

text \<open>
  \<open>markMessageProcessed\<close> reads the clock twice: \<open>now_cleanup\<close> inside the cleanup pass
  (when it runs) and \<open>now_set\<close> for the timestamp it stores.
\<close>

definition markMessageProcessed :: "int \<Rightarrow> int \<Rightarrow> string \<Rightarrow> dedup_cache \<Rightarrow> dedup_cache" where
  "markMessageProcessed now_cleanup now_set messageId c =
     (let c1 =
        (if length (processedMessageIds c) \<ge> DEDUP_CACHE_MAX_SIZE then
           (let c' = cleanupDedupCache now_cleanup c in
            if length (processedMessageIds c') \<ge> DEDUP_CACHE_MAX_SIZE
            then evict_oldest c' else c')
         else c)
      in c1\<lparr>processedMessageIds := set_add messageId (processedMessageIds c1),
            processedMessageTimestamps :=
              AList.update messageId now_set (processedMessageTimestamps c1)\<rparr>)"

definition clearDedupCache :: "dedup_cache \<Rightarrow> dedup_cache" where
  "clearDedupCache c = c\<lparr>processedMessageIds := [], processedMessageTimestamps := []\<rparr>"

text \<open>Sequences of cache operations, run from left to right.\<close>

datatype cache_op = MarkProcessed int int string | Cleanup int | Clear

fun cache_step :: "cache_op \<Rightarrow> dedup_cache \<Rightarrow> dedup_cache" where
  "cache_step (MarkProcessed now_cleanup now_set k) c = markMessageProcessed now_cleanup now_set k c"
| "cache_step (Cleanup now) c = cleanupDedupCache now c"
| "cache_step Clear c = clearDedupCache c"

fun cache_run :: "cache_op list \<Rightarrow> dedup_cache \<Rightarrow> dedup_cache" where
  "cache_run [] c = c"
| "cache_run (op # ops) c = cache_run ops (cache_step op c)"

subsection \<open>Sessions, abort signals and the monitor state\<close>

text \<open>
  Every call of \<open>monitorDingtalkProvider\<close> that gets as far as creating a client builds
  one closure: the client, the account id, the abort signal, the flag \<open>stopped\<close> and the
  \<open>resolve\<close>/\<open>reject\<close> pair of the promise it returns. The model keeps these in a store
  indexed by a handle, so that the client, the promise and the stop hook of one call are
  compared by handle as the code compares them by reference. The SDK client is taken by
  its behaviour: which of its three methods throw, and with what.
\<close>

type_synonym handle = nat

datatype promise_state = Pending | Resolved | Rejected string

record client_behaviour =
  registerCallbackListener_throws :: "string option"
  connect_throws :: "string option"
  disconnect_throws :: "string option"

record session =
  session_accountId :: string
  session_abortSignal :: "handle option"
  session_stopped :: bool
  session_promise :: promise_state
  session_client :: client_behaviour

text \<open>
  An \<open>AbortSignal\<close> of the platform: its \<open>aborted\<close> flag and the sessions whose
  \<open>handleAbort\<close> is registered on it.
\<close>

record abort_signal =
  aborted :: bool
  listeners :: "handle list"

text \<open>The fields of \<open>DingtalkRawMessage\<close> the monitor reads; each may be absent.\<close>

record text_body =
  content :: "string option"

record raw_message =
  streamMessageId :: "string option"
  conversationId :: "string option"
  senderId :: "string option"
  msg_text :: "text_body option"
  msgtype :: "string option"

text \<open>
  What the monitor does to its collaborators, in order: lines written through
  \<open>log\<close> and \<open>error\<close>, calls of the client's methods, calls on the abort signal (signal
  handle first), calls of \<open>resolve\<close> and \<open>reject\<close>, and calls of
  \<open>handleDingtalkMessage\<close> (with the session whose context it gets, and the message).
\<close>

datatype effect =
    Log string
  | Error string
  | AddEventListener handle handle
  | RemoveEventListener handle handle
  | RegisterCallbackListener handle
  | Connect handle
  | Disconnect handle
  | ResolveCalled handle
  | RejectCalled handle string
  | HandleMessage handle raw_message

record monitor_state =
  currentClient :: "handle option"
  currentAccountId :: "string option"
  currentPromise :: "handle option"
  currentStop :: "handle option"
  dedup :: dedup_cache
  sessions :: "handle \<Rightarrow> session"
  next_handle :: handle
  signals :: "handle \<Rightarrow> abort_signal"
  trace :: "effect list"

definition no_client :: client_behaviour where
  "no_client = \<lparr>registerCallbackListener_throws = None, connect_throws = None,
                 disconnect_throws = None\<rparr>"

definition initial_state :: monitor_state where
  "initial_state =
     \<lparr>currentClient = None, currentAccountId = None, currentPromise = None,
      currentStop = None, dedup = empty_cache,
      sessions = (\<lambda>n. \<lparr>session_accountId = [], session_abortSignal = None,
                          session_stopped = False, session_promise = Pending,
                          session_client = no_client\<rparr>),
      next_handle = 0,
      signals = (\<lambda>g. \<lparr>aborted = False, listeners = []\<rparr>),
      trace = []\<rparr>"

definition emit :: "effect \<Rightarrow> monitor_state \<Rightarrow> monitor_state" where
  "emit e st = st\<lparr>trace := trace st @ [e]\<rparr>"

definition runtime_log :: "string \<Rightarrow> monitor_state \<Rightarrow> monitor_state" where
  "runtime_log msg st = emit (Log msg) st"

definition runtime_error :: "string \<Rightarrow> monitor_state \<Rightarrow> monitor_state" where
  "runtime_error msg st = emit (Error msg) st"

subsection \<open>The closure of one session\<close>

definition set_stopped :: "handle \<Rightarrow> monitor_state \<Rightarrow> monitor_state" where
  "set_stopped n st = st\<lparr>sessions := (sessions st)(n := (sessions st n)\<lparr>session_stopped := True\<rparr>)\<rparr>"

text \<open>\<open>resolve()\<close> and \<open>reject(err)\<close> settle a promise that is still pending.\<close>

definition settle :: "promise_state \<Rightarrow> handle \<Rightarrow> monitor_state \<Rightarrow> monitor_state" where
  "settle outcome n st =
     (if session_promise (sessions st n) = Pending
      then st\<lparr>sessions := (sessions st)(n := (sessions st n)\<lparr>session_promise := outcome\<rparr>)\<rparr>
      else st)"

definition resolve :: "handle \<Rightarrow> monitor_state \<Rightarrow> monitor_state" where
  "resolve n st = settle Resolved n (emit (ResolveCalled n) st)"

definition reject :: "handle \<Rightarrow> string \<Rightarrow> monitor_state \<Rightarrow> monitor_state" where
  "reject n err st = settle (Rejected err) n (emit (RejectCalled n err) st)"

text \<open>\<open>abortSignal?.removeEventListener("abort", handleAbort)\<close>\<close>

definition unlisten :: "handle \<Rightarrow> handle \<Rightarrow> monitor_state \<Rightarrow> monitor_state" where
  "unlisten g n st =
     st\<lparr>signals := (signals st)(g := (signals st g)\<lparr>listeners := removeAll n (listeners (signals st g))\<rparr>)\<rparr>"

definition removeEventListener :: "handle \<Rightarrow> monitor_state \<Rightarrow> monitor_state" where
  "removeEventListener n st =
     (case session_abortSignal (sessions st n) of
        None \<Rightarrow> st
      | Some g \<Rightarrow> unlisten g n (emit (RemoveEventListener g n) st))"

text \<open>\<open>abortSignal?.addEventListener("abort", handleAbort, { once: true })\<close>\<close>

definition addEventListener :: "handle \<Rightarrow> monitor_state \<Rightarrow> monitor_state" where
  "addEventListener n st =
     (case session_abortSignal (sessions st n) of
        None \<Rightarrow> st
      | Some g \<Rightarrow>
          (emit (AddEventListener g n) st)
            \<lparr>signals := (signals st)(g := (signals st g)
               \<lparr>listeners := (if n \<in> set (listeners (signals st g)) then listeners (signals st g)
                              else listeners (signals st g) @ [n])\<rparr>)\<rparr>)"

text \<open>
  \<open>cleanup\<close>: the slot is cleared only if it still holds this session's client; the
  client is disconnected in any case, and a failing disconnect is reported, not raised.
\<close>

definition cleanup :: "handle \<Rightarrow> monitor_state \<Rightarrow> monitor_state" where
  "cleanup n st =
     (let st1 = (if currentClient st = Some n
                 then st\<lparr>currentClient := None, currentAccountId := None,
                         currentStop := None, currentPromise := None\<rparr>
                 else st);
          st2 = emit (Disconnect n) st1
      in case disconnect_throws (session_client (sessions st2 n)) of
           None \<Rightarrow> st2
         | Some err \<Rightarrow> runtime_error (''[dingtalk] failed to disconnect client: '' @ err) st2)"

definition finalizeResolve :: "handle \<Rightarrow> monitor_state \<Rightarrow> monitor_state" where
  "finalizeResolve n st =
     (if session_stopped (sessions st n) then st
      else resolve n (cleanup n (removeEventListener n (set_stopped n st))))"

definition finalizeReject :: "handle \<Rightarrow> string \<Rightarrow> monitor_state \<Rightarrow> monitor_state" where
  "finalizeReject n err st =
     (if session_stopped (sessions st n) then st
      else reject n err (cleanup n (removeEventListener n (set_stopped n st))))"

definition handleAbort :: "handle \<Rightarrow> monitor_state \<Rightarrow> monitor_state" where
  "handleAbort n st =
     finalizeResolve n
       (runtime_log ''[dingtalk] abort signal received, stopping Stream client'' st)"

definition stop_hook :: "handle \<Rightarrow> monitor_state \<Rightarrow> monitor_state" where
  "stop_hook n st =
     finalizeResolve n (runtime_log ''[dingtalk] stop requested, stopping Stream client'' st)"

text \<open>
  The \<open>try\<close> block of the promise executor: register the robot callback, then connect.
  A call that throws is still recorded as made.
\<close>

definition start_connection :: "handle \<Rightarrow> monitor_state \<Rightarrow> monitor_state" where
  "start_connection n st =
     (let st1 = emit (RegisterCallbackListener n) st in
      case registerCallbackListener_throws (session_client (sessions st n)) of
        Some err \<Rightarrow>
          finalizeReject n err
            (runtime_error (''[dingtalk] failed to start Stream connection: '' @ err) st1)
      | None \<Rightarrow>
          (let st2 = emit (Connect n) st1 in
           case connect_throws (session_client (sessions st n)) of
             Some err \<Rightarrow>
               finalizeReject n err
                 (runtime_error (''[dingtalk] failed to start Stream connection: '' @ err) st2)
           | None \<Rightarrow> runtime_log ''[dingtalk] Stream client connected'' st2))"

definition executor :: "handle \<Rightarrow> monitor_state \<Rightarrow> monitor_state" where
  "executor n st =
     (let st1 = st\<lparr>currentStop := Some n\<rparr> in
      case session_abortSignal (sessions st1 n) of
        None \<Rightarrow> start_connection n st1
      | Some g \<Rightarrow>
          if aborted (signals st1 g) then finalizeResolve n st1
          else start_connection n (addEventListener n st1))"

subsection \<open>The exported functions\<close>

record 'cfg channels_config =
  dingtalk :: "'cfg option"

record 'cfg plugin_config =
  channels :: "'cfg channels_config option"

record 'cfg MonitorDingtalkOpts =
  opts_config :: "'cfg plugin_config option"
  opts_abortSignal :: "handle option"
  opts_accountId :: "string option"

text \<open>\<open>config?.channels?.dingtalk\<close>\<close>

definition dingtalkCfg :: "'cfg MonitorDingtalkOpts \<Rightarrow> 'cfg option" where
  "dingtalkCfg opts =
     (case opts_config opts of
        None \<Rightarrow> None
      | Some c \<Rightarrow> (case channels c of None \<Rightarrow> None | Some ch \<Rightarrow> dingtalk ch))"

text \<open>\<open>accountId = "default"\<close> in the destructuring of the options.\<close>

definition accountId_of :: "'cfg MonitorDingtalkOpts \<Rightarrow> string" where
  "accountId_of opts = (case opts_accountId opts of None \<Rightarrow> ''default'' | Some a \<Rightarrow> a)"

definition reuse_line :: "string \<Rightarrow> string" where
  "reuse_line acct =
     ''[dingtalk] existing connection for account '' @ acct @ '' is active, reusing monitor''"

text \<open>The tail of the branch for an occupied slot: log, then hand out \<open>currentPromise\<close>.\<close>

definition reuse_monitor :: "string \<Rightarrow> monitor_state \<Rightarrow> (string + handle) \<times> monitor_state" where
  "reuse_monitor acct st =
     (let st1 = runtime_log (reuse_line acct) st in
      case currentPromise st1 of
        Some p \<Rightarrow> (Inr p, st1)
      | None \<Rightarrow> (Inl ''DingTalk monitor state invalid: active client without promise'', st1))"

text \<open>
  The body of \<open>monitorDingtalkProvider\<close>. The factory \<open>createDingtalkClientFromConfig\<close>
  (client.ts) is the parameter \<open>create\<close>: it throws (\<open>Inl\<close>) or yields a client. The
  result is \<open>Inl\<close> when the body throws, and otherwise the promise the body returns; what
  the caller of the \<open>async\<close> function holds is \<open>monitorDingtalkProvider_async\<close> below. In
  \<open>currentAccountId && currentAccountId !== accountId\<close> the left operand is falsy for
  \<open>null\<close> and for the empty string. The executor of \<open>new Promise\<close> runs before the
  assignment to \<open>currentPromise\<close>.
\<close>

definition monitorDingtalkProvider ::
  "('cfg \<Rightarrow> string + client_behaviour) \<Rightarrow> 'cfg MonitorDingtalkOpts \<Rightarrow> monitor_state
     \<Rightarrow> (string + handle) \<times> monitor_state" where
  "monitorDingtalkProvider create opts st =
     (if currentClient st \<noteq> None then
        (case currentAccountId st of
           None \<Rightarrow> reuse_monitor (accountId_of opts) st
         | Some running \<Rightarrow>
             if running \<noteq> [] \<and> running \<noteq> accountId_of opts
             then (Inl (''DingTalk already running for account '' @ running), st)
             else reuse_monitor (accountId_of opts) st)
      else
        (case dingtalkCfg opts of
           None \<Rightarrow> (Inl ''DingTalk configuration not found'', st)
         | Some cfg \<Rightarrow>
             (case create cfg of
                Inl err \<Rightarrow>
                  (Inl err, runtime_error (''[dingtalk] failed to create client: '' @ err) st)
              | Inr client \<Rightarrow>
                  (let n = next_handle st;
                       st1 = st\<lparr>next_handle := Suc n,
                                sessions := (sessions st)(n :=
                                  \<lparr>session_accountId = accountId_of opts,
                                   session_abortSignal = opts_abortSignal opts,
                                   session_stopped = False,
                                   session_promise = Pending,
                                   session_client = client\<rparr>)\<rparr>;
                       st2 = st1\<lparr>currentClient := Some n,
                                 currentAccountId := Some (accountId_of opts)\<rparr>;
                       st3 = runtime_log (''[dingtalk] starting Stream connection for account ''
                               @ accountId_of opts @ ''...'') st2;
                       st4 = executor n st3;
                       st5 = st4\<lparr>currentPromise := Some n\<rparr>
                   in (Inr n, st5)))))"

text \<open>
  \<open>monitorDingtalkProvider\<close> as its caller sees it. The function is declared \<open>async\<close>, so
  every call makes a promise of its own and hands that to the caller: rejected with the
  error when the body throws, and otherwise resolved with the promise the body returns,
  which it then follows. The promises handed to callers are kept in a list, a promise
  being known by its position; the entry says how it was settled.
\<close>

type_synonym caller_promises = "(string + handle) list"

definition monitorDingtalkProvider_async ::
  "('cfg \<Rightarrow> string + client_behaviour) \<Rightarrow> 'cfg MonitorDingtalkOpts
     \<Rightarrow> caller_promises \<times> monitor_state \<Rightarrow> handle \<times> caller_promises \<times> monitor_state" where
  "monitorDingtalkProvider_async create opts world =
     (case monitorDingtalkProvider create opts (snd world) of
        (outcome, st') \<Rightarrow> (length (fst world), fst world @ [outcome], st'))"

definition stopDingtalkMonitor :: "monitor_state \<Rightarrow> monitor_state" where
  "stopDingtalkMonitor st =
     (case currentStop st of
        Some n \<Rightarrow> stop_hook n st
      | None \<Rightarrow>
          (case currentClient st of
             None \<Rightarrow> st
           | Some c \<Rightarrow>
               (let st1 = emit (Disconnect c) st;
                    st2 = (case disconnect_throws (session_client (sessions st1 c)) of
                             None \<Rightarrow> st1
                           | Some err \<Rightarrow>
                               runtime_error (''[dingtalk] failed to disconnect client: '' @ err) st1)
                in st2\<lparr>currentClient := None, currentAccountId := None,
                       currentPromise := None, currentStop := None\<rparr>)))"

definition isMonitorActive :: "monitor_state \<Rightarrow> bool" where
  "isMonitorActive st = (currentClient st \<noteq> None)"

definition getCurrentAccountId :: "monitor_state \<Rightarrow> string option" where
  "getCurrentAccountId st = currentAccountId st"

subsection \<open>The abort signal firing\<close>

text \<open>
  The platform's part: a signal aborts at most once; it then calls the listeners that are
  registered at that moment, each removed before it runs (\<open>once: true\<close>), and skips one
  that an earlier listener has removed.
\<close>

fun dispatch_abort :: "handle \<Rightarrow> handle list \<Rightarrow> monitor_state \<Rightarrow> monitor_state" where
  "dispatch_abort g [] st = st"
| "dispatch_abort g (n # ns) st =
     dispatch_abort g ns
       (if n \<in> set (listeners (signals st g)) then handleAbort n (unlisten g n st) else st)"

definition abort_fires :: "handle \<Rightarrow> monitor_state \<Rightarrow> monitor_state" where
  "abort_fires g st =
     (if aborted (signals st g) then st
      else dispatch_abort g (listeners (signals st g))
             (st\<lparr>signals := (signals st)(g := (signals st g)\<lparr>aborted := True\<rparr>)\<rparr>))"

subsection \<open>The robot callback\<close>

text \<open>
  \<open>EventAck\<close> is the SDK's enumeration. A delivered event is taken after \<open>JSON.parse\<close>:
  its data either fail to parse (with the error) or give a message.
\<close>

datatype EventAck = SUCCESS | LATER

datatype payload = Malformed string | Parsed raw_message

record stream_event =
  data :: payload
  headers_messageId :: "string option"

text \<open>A missing value in a template literal prints as \<open>undefined\<close>.\<close>

definition template :: "string option \<Rightarrow> string" where
  "template v = (case v of None \<Rightarrow> ''undefined'' | Some s \<Rightarrow> s)"

text \<open>Parse the payload and attach the header's message id when it is truthy.\<close>

definition decode :: "stream_event \<Rightarrow> string + raw_message" where
  "decode ev =
     (case data ev of
        Malformed err \<Rightarrow> Inl err
      | Parsed rawMessage \<Rightarrow>
          Inr (case headers_messageId ev of
                 None \<Rightarrow> rawMessage
               | Some m \<Rightarrow> if m = [] then rawMessage else rawMessage\<lparr>streamMessageId := Some m\<rparr>))"

text \<open>\<open>rawMessage.text?.content?.slice(0, 50) ?? rawMessage.msgtype\<close>\<close>

definition content_prefix :: "raw_message \<Rightarrow> string option" where
  "content_prefix rawMessage =
     (case msg_text rawMessage of
        None \<Rightarrow> msgtype rawMessage
      | Some t \<Rightarrow> (case content t of None \<Rightarrow> msgtype rawMessage | Some c \<Rightarrow> Some (take 50 c)))"

definition fallback_key :: "string \<Rightarrow> raw_message \<Rightarrow> string" where
  "fallback_key acct rawMessage =
     acct @ '':'' @ template (conversationId rawMessage) @ ''_''
       @ template (senderId rawMessage) @ ''_'' @ template (content_prefix rawMessage)"

definition dedupeId :: "string \<Rightarrow> raw_message \<Rightarrow> string" where
  "dedupeId acct rawMessage =
     (case streamMessageId rawMessage of
        None \<Rightarrow> fallback_key acct rawMessage
      | Some s \<Rightarrow> if s = [] then fallback_key acct rawMessage else acct @ '':'' @ s)"

text \<open>
  The body of the callback's \<open>try\<close>. \<open>handleDingtalkMessage\<close> is an \<open>async\<close> function: the
  call returns a promise and is recorded; its later rejection is \<open>handler_rejected\<close>.
\<close>

definition duplicate_line :: "string \<Rightarrow> string" where
  "duplicate_line key =
     ''[dingtalk] duplicate message detected, skipping (id='' @ take 30 key @ ''...)''"

definition received_line :: "raw_message \<Rightarrow> string" where
  "received_line rawMessage =
     ''[dingtalk] received message from '' @ template (senderId rawMessage)
       @ '' (type='' @ template (msgtype rawMessage) @ '')''"

definition robot_callback_try ::
  "handle \<Rightarrow> int \<Rightarrow> int \<Rightarrow> stream_event \<Rightarrow> monitor_state
     \<Rightarrow> (string + EventAck) \<times> monitor_state" where
  "robot_callback_try n now_cleanup now_set res st =
     (case decode res of
        Inl err \<Rightarrow> (Inl err, st)
      | Inr rawMessage \<Rightarrow>
          (let key = dedupeId (session_accountId (sessions st n)) rawMessage in
           if isMessageProcessed key (dedup st) then
             (Inr SUCCESS, runtime_log (duplicate_line key) st)
           else
             (let st1 = st\<lparr>dedup := markMessageProcessed now_cleanup now_set key (dedup st)\<rparr>;
                  st2 = runtime_log (received_line rawMessage) st1;
                  st3 = emit (HandleMessage n rawMessage) st2
              in (Inr SUCCESS, st3))))"

definition robot_callback ::
  "handle \<Rightarrow> int \<Rightarrow> int \<Rightarrow> stream_event \<Rightarrow> monitor_state
     \<Rightarrow> (string + EventAck) \<times> monitor_state" where
  "robot_callback n now_cleanup now_set res st =
     (case robot_callback_try n now_cleanup now_set res st of
        (Inl err, st') \<Rightarrow>
          (Inr SUCCESS, runtime_error (''[dingtalk] error handling message: '' @ err) st')
      | (Inr ack, st') \<Rightarrow> (Inr ack, st'))"

text \<open>The \<open>.catch\<close> on the promise of \<open>handleDingtalkMessage\<close>.\<close>

definition handler_rejected :: "string \<Rightarrow> monitor_state \<Rightarrow> monitor_state" where
  "handler_rejected err st = runtime_error (''[dingtalk] error handling message: '' @ err) st"

subsection \<open>Runs of the monitor\<close>

text \<open>
  What can happen to the monitor, one event at a time: a call of an exported function,
  an abort signal firing, the transport delivering an event to the callback a session
  registered, the promise of a handler call rejecting.
\<close>

datatype 'cfg action =
    Start "'cfg MonitorDingtalkOpts"
  | Stop
  | AbortFires handle
  | Deliver handle int int stream_event
  | HandlerRejects string
  | ClearDedupCache

definition callback_registered :: "handle \<Rightarrow> monitor_state \<Rightarrow> bool" where
  "callback_registered n st =
     (RegisterCallbackListener n \<in> set (trace st)
      \<and> registerCallbackListener_throws (session_client (sessions st n)) = None)"

fun step :: "('cfg \<Rightarrow> string + client_behaviour) \<Rightarrow> 'cfg action \<Rightarrow> monitor_state \<Rightarrow> monitor_state" where
  "step create (Start opts) st = snd (monitorDingtalkProvider create opts st)"
| "step create Stop st = stopDingtalkMonitor st"
| "step create (AbortFires g) st = abort_fires g st"
| "step create (Deliver n now_cleanup now_set res) st =
     (if callback_registered n st then snd (robot_callback n now_cleanup now_set res st) else st)"
| "step create (HandlerRejects err) st = handler_rejected err st"
| "step create ClearDedupCache st = st\<lparr>dedup := clearDedupCache (dedup st)\<rparr>"

fun exec :: "('cfg \<Rightarrow> string + client_behaviour) \<Rightarrow> 'cfg action list \<Rightarrow> monitor_state \<Rightarrow> monitor_state" where
  "exec create [] st = st"
| "exec create (a # as) st = exec create as (step create a st)"

subsection \<open>Vocabulary of the properties\<close>

text \<open>The calls on the client, the abort signal and the promise of one session.\<close>

fun effect_session :: "effect \<Rightarrow> handle option" where
  "effect_session (Log msg) = None"
| "effect_session (Error msg) = None"
| "effect_session (AddEventListener g n) = Some n"
| "effect_session (RemoveEventListener g n) = Some n"
| "effect_session (RegisterCallbackListener n) = Some n"
| "effect_session (Connect n) = Some n"
| "effect_session (Disconnect n) = Some n"
| "effect_session (ResolveCalled n) = Some n"
| "effect_session (RejectCalled n err) = Some n"
| "effect_session (HandleMessage n rawMessage) = None"

definition session_effects :: "handle \<Rightarrow> monitor_state \<Rightarrow> effect list" where
  "session_effects n st = filter (\<lambda>e. effect_session e = Some n) (trace st)"

text \<open>The calls a session makes on its way to an open connection, and those of one teardown.\<close>

definition started_effects :: "handle \<Rightarrow> monitor_state \<Rightarrow> effect list" where
  "started_effects n st =
     (case session_abortSignal (sessions st n) of
        None \<Rightarrow> []
      | Some g \<Rightarrow> [AddEventListener g n])
     @ [RegisterCallbackListener n, Connect n]"

definition teardown_effects :: "handle \<Rightarrow> monitor_state \<Rightarrow> effect list" where
  "teardown_effects n st =
     (case session_abortSignal (sessions st n) of
        None \<Rightarrow> []
      | Some g \<Rightarrow> [RemoveEventListener g n])
     @ [Disconnect n, ResolveCalled n]"

text \<open>Calls of the downstream handler, and the calls that belong to some session.\<close>

fun is_handler_call :: "effect \<Rightarrow> bool" where
  "is_handler_call (HandleMessage n rawMessage) = True"
| "is_handler_call (Log msg) = False"
| "is_handler_call (Error msg) = False"
| "is_handler_call (AddEventListener g n) = False"
| "is_handler_call (RemoveEventListener g n) = False"
| "is_handler_call (RegisterCallbackListener n) = False"
| "is_handler_call (Connect n) = False"
| "is_handler_call (Disconnect n) = False"
| "is_handler_call (ResolveCalled n) = False"
| "is_handler_call (RejectCalled n err) = False"

definition handler_calls :: "monitor_state \<Rightarrow> effect list" where
  "handler_calls st = filter is_handler_call (trace st)"

definition lifecycle_calls :: "monitor_state \<Rightarrow> effect list" where
  "lifecycle_calls st = filter (\<lambda>e. effect_session e \<noteq> None) (trace st)"

text \<open>
  Everything of the state that belongs to the connection lifecycle: the slot, the
  sessions with their promises, the abort signals, and the calls made on clients,
  signals and promises.
\<close>

definition lifecycle ::
  "monitor_state \<Rightarrow> handle option \<times> string option \<times> handle option \<times> handle option
     \<times> (handle \<Rightarrow> session) \<times> (handle \<Rightarrow> abort_signal) \<times> effect list" where
  "lifecycle st =
     (currentClient st, currentAccountId st, currentPromise st, currentStop st,
      sessions st, signals st, lifecycle_calls st)"

text \<open>
  The triggers of a teardown, and whether one reaches session \<open>n\<close>: a manual stop always
  does, an abort signal does if it is the signal the session was started with.
\<close>

fun is_trigger :: "'cfg action \<Rightarrow> bool" where
  "is_trigger Stop = True"
| "is_trigger (AbortFires g) = True"
| "is_trigger (Start opts) = False"
| "is_trigger (Deliver n now_cleanup now_set res) = False"
| "is_trigger (HandlerRejects err) = False"
| "is_trigger ClearDedupCache = False"

fun reaches :: "handle \<Rightarrow> monitor_state \<Rightarrow> 'cfg action \<Rightarrow> bool" where
  "reaches n st Stop = True"
| "reaches n st (AbortFires g) = (session_abortSignal (sessions st n) = Some g)"
| "reaches n st (Start opts) = False"
| "reaches n st (Deliver m now_cleanup now_set res) = False"
| "reaches n st (HandlerRejects err) = False"
| "reaches n st ClearDedupCache = False"

text \<open>
  The three ways a key leaves the cache, following the specification: a cleanup pass
  runs (on its own, or inside an insert that finds the cache at capacity) while the key
  is older than the TTL; an insert at capacity, still at capacity after its cleanup
  pass, evicts the key as the oldest one; the cache is cleared. \<open>marks op k\<close> says that
  \<open>op\<close> inserts \<open>k\<close> itself.
\<close>

definition expired :: "int \<Rightarrow> dedup_cache \<Rightarrow> string \<Rightarrow> bool" where
  "expired now c k =
     (case map_of (processedMessageTimestamps c) k of
        None \<Rightarrow> False
      | Some t \<Rightarrow> now - t > DEDUP_CACHE_TTL)"

definition at_capacity :: "dedup_cache \<Rightarrow> bool" where
  "at_capacity c = (length (processedMessageIds c) \<ge> DEDUP_CACHE_MAX_SIZE)"

fun ttl_expiry :: "cache_op \<Rightarrow> dedup_cache \<Rightarrow> string \<Rightarrow> bool" where
  "ttl_expiry (Cleanup now) c k = expired now c k"
| "ttl_expiry (MarkProcessed now_cleanup now_set k') c k = (at_capacity c \<and> expired now_cleanup c k)"
| "ttl_expiry Clear c k = False"

fun capacity_eviction :: "cache_op \<Rightarrow> dedup_cache \<Rightarrow> string \<Rightarrow> bool" where
  "capacity_eviction (MarkProcessed now_cleanup now_set k') c k =
     (at_capacity c \<and> at_capacity (cleanupDedupCache now_cleanup c)
      \<and> first_key (processedMessageTimestamps (cleanupDedupCache now_cleanup c)) = Some k
      \<and> k \<noteq> [])"
| "capacity_eviction (Cleanup now) c k = False"
| "capacity_eviction Clear c k = False"

fun explicit_clear :: "cache_op \<Rightarrow> bool" where
  "explicit_clear Clear = True"
| "explicit_clear (Cleanup now) = False"
| "explicit_clear (MarkProcessed now_cleanup now_set k') = False"

fun marks :: "cache_op \<Rightarrow> string \<Rightarrow> bool" where
  "marks (MarkProcessed now_cleanup now_set k') k = (k' = k)"
| "marks (Cleanup now) k = False"
| "marks Clear k = False"

fun nonempty_key :: "cache_op \<Rightarrow> bool" where
  "nonempty_key (MarkProcessed now_cleanup now_set k) = (k \<noteq> [])"
| "nonempty_key (Cleanup now) = True"
| "nonempty_key Clear = True"

subsection \<open>Concrete inputs\<close>

text \<open>
  A factory that accepts every configuration and yields a client none of whose methods
  throws; options with a configuration present; one robot message, delivered with the
  stream message id \<open>m1\<close>.
\<close>

definition accept_config :: "unit \<Rightarrow> string + client_behaviour" where
  "accept_config cfg = Inr no_client"

definition start_opts :: "string option \<Rightarrow> handle option \<Rightarrow> unit MonitorDingtalkOpts" where
  "start_opts acct sig =
     \<lparr>opts_config = Some \<lparr>channels = Some \<lparr>dingtalk = Some ()\<rparr>\<rparr>,
      opts_abortSignal = sig, opts_accountId = acct\<rparr>"

definition unconfigured_opts :: "unit MonitorDingtalkOpts" where
  "unconfigured_opts =
     \<lparr>opts_config = Some \<lparr>channels = Some \<lparr>dingtalk = None\<rparr>\<rparr>,
      opts_abortSignal = None, opts_accountId = Some ''A''\<rparr>"

definition hello :: raw_message where
  "hello =
     \<lparr>streamMessageId = None, conversationId = Some ''cid1'', senderId = Some ''user1'',
      msg_text = Some \<lparr>content = Some ''hello''\<rparr>, msgtype = Some ''text''\<rparr>"

definition hello_event :: stream_event where
  "hello_event = \<lparr>data = Parsed hello, headers_messageId = Some ''m1''\<rparr>"

text \<open>A session for account \<open>A\<close> started with abort signal 7; one for the empty account id.\<close>

definition session_A :: monitor_state where
  "session_A = exec accept_config [Start (start_opts (Some ''A'') (Some 7))] initial_state"

definition session_unnamed :: monitor_state where
  "session_unnamed = exec accept_config [Start (start_opts (Some []) None)] initial_state"

text \<open>
  Two calls in a row for account \<open>A\<close>, by a caller that holds no promise yet: the first
  starts the session, the second finds it running.
\<close>

definition first_start :: "handle \<times> caller_promises \<times> monitor_state" where
  "first_start =
     monitorDingtalkProvider_async accept_config (start_opts (Some ''A'') None) ([], initial_state)"

definition second_start :: "handle \<times> caller_promises \<times> monitor_state" where
  "second_start =
     monitorDingtalkProvider_async accept_config (start_opts (Some ''A'') None) (snd first_start)"

text \<open>The idle monitor after abort signal 7 has fired.\<close>

definition signal_7_fired :: monitor_state where
  "signal_7_fired = exec accept_config [AbortFires 7] initial_state"



subsection \<open>Invariants\<close>

text \<open>The two stores hold the same keys in the same order, without repetition.\<close>

definition cache_inv :: "dedup_cache \<Rightarrow> bool" where
  "cache_inv c =
     (processedMessageIds c = map fst (processedMessageTimestamps c)
      \<and> distinct (processedMessageIds c))"

definition expired_keys :: "int \<Rightarrow> (string \<times> int) list \<Rightarrow> string set" where
  "expired_keys now es = {k. \<exists>t. (k, t) \<in> set es \<and> now - t > DEDUP_CACHE_TTL}"

definition bounded :: "dedup_cache \<Rightarrow> bool" where
  "bounded c = (cache_inv c \<and> length (processedMessageIds c) \<le> DEDUP_CACHE_MAX_SIZE
                \<and> [] \<notin> set (processedMessageIds c))"

text \<open>
  The slot is either empty, with no stop hook, no account id and no abort listener
  left behind, or it holds a session that is not stopped, whose promise is pending and is
  \<open>currentPromise\<close>, whose stop hook is \<open>currentStop\<close>, which has made exactly the calls of a
  start, and which is the only listener, on a signal that has not fired.
\<close>

definition slot_inv :: "monitor_state \<Rightarrow> bool" where
  "slot_inv st =
     (case currentClient st of
        None \<Rightarrow> currentStop st = None \<and> currentAccountId st = None
                 \<and> (\<forall>g. listeners (signals st g) = [])
      | Some n \<Rightarrow>
          n < next_handle st \<and> currentStop st = Some n \<and> currentPromise st = Some n
          \<and> currentAccountId st = Some (session_accountId (sessions st n))
          \<and> \<not> session_stopped (sessions st n)
          \<and> session_promise (sessions st n) = Pending
          \<and> session_effects n st = started_effects n st
          \<and> (\<forall>g. listeners (signals st g)
                  = (if session_abortSignal (sessions st n) = Some g then [n] else []))
          \<and> (\<forall>g. session_abortSignal (sessions st n) = Some g \<longrightarrow> \<not> aborted (signals st g)))"

text \<open>No call has been made yet for a handle that is still to be given out.\<close>

definition fresh_inv :: "monitor_state \<Rightarrow> bool" where
  "fresh_inv st = (\<forall>m\<ge>next_handle st. session_effects m st = [])"

definition monitor_inv :: "monitor_state \<Rightarrow> bool" where
  "monitor_inv st = (slot_inv st \<and> fresh_inv st)"

definition only_listener :: "handle \<Rightarrow> monitor_state \<Rightarrow> bool" where
  "only_listener n st =
     (\<forall>g. listeners (signals st g) = []
          \<or> (session_abortSignal (sessions st n) = Some g \<and> listeners (signals st g) = [n]))"

text \<open>The state in which the promise executor of a new session starts.\<close>

definition fresh_session :: "'cfg MonitorDingtalkOpts \<Rightarrow> client_behaviour \<Rightarrow> session" where
  "fresh_session opts client =
     \<lparr>session_accountId = accountId_of opts, session_abortSignal = opts_abortSignal opts,
      session_stopped = False, session_promise = Pending, session_client = client\<rparr>"

definition entered :: "'cfg MonitorDingtalkOpts \<Rightarrow> client_behaviour \<Rightarrow> monitor_state \<Rightarrow> monitor_state" where
  "entered opts client st =
     runtime_log (''[dingtalk] starting Stream connection for account ''
                    @ accountId_of opts @ ''...'')
       (st\<lparr>next_handle := Suc (next_handle st),
           sessions := (sessions st)(next_handle st := fresh_session opts client),
           currentClient := Some (next_handle st),
           currentAccountId := Some (accountId_of opts)\<rparr>)"

section \<open>Properties of the dedup cache\<close>

lemma cache_inv_empty: "cache_inv empty_cache"
  by (simp add: cache_inv_def empty_cache_def)

lemma cache_inv_delete_entry: "cache_inv c \<Longrightarrow> cache_inv (delete_entry k c)"
  by (auto simp: cache_inv_def delete_entry_def delete_keys distinct_removeAll)

lemma cache_inv_cleanup_loop: "cache_inv c \<Longrightarrow> cache_inv (cleanup_loop now es c)"
  by (induction es arbitrary: c) (auto simp: cache_inv_delete_entry)

lemma cache_inv_cleanup: "cache_inv c \<Longrightarrow> cache_inv (cleanupDedupCache now c)"
  by (simp add: cleanupDedupCache_def cache_inv_cleanup_loop)

lemma cache_inv_evict_oldest: "cache_inv c \<Longrightarrow> cache_inv (evict_oldest c)"
  by (simp add: evict_oldest_def cache_inv_delete_entry split: option.splits)

lemma cache_inv_add:
  assumes "cache_inv c"
  shows "cache_inv (c\<lparr>processedMessageIds := set_add k (processedMessageIds c),
            processedMessageTimestamps := AList.update k t (processedMessageTimestamps c)\<rparr>)"
  using assms by (auto simp: cache_inv_def set_add_def update_keys)

lemma cache_inv_mark: "cache_inv c \<Longrightarrow> cache_inv (markMessageProcessed tc ts k c)"
  unfolding markMessageProcessed_def Let_def
  by (intro cache_inv_add) (simp add: cache_inv_cleanup cache_inv_evict_oldest)

lemma cache_inv_clear: "cache_inv (clearDedupCache c)"
  by (simp add: cache_inv_def clearDedupCache_def)

lemma cache_inv_step: "cache_inv c \<Longrightarrow> cache_inv (cache_step op c)"
  by (cases op) (simp_all add: cache_inv_mark cache_inv_cleanup cache_inv_clear)

lemma cache_inv_run: "cache_inv c \<Longrightarrow> cache_inv (cache_run ops c)"
  by (induction ops arbitrary: c) (simp_all add: cache_inv_step)

text \<open>
  Claim C10. After every sequence of cache operations (mark, cleanup, clear) started
  from the empty cache, the set of processed message ids and the timestamp map hold
  exactly the same keys.
\<close>

theorem dedup_stores_same_keys:
  "set (processedMessageIds (cache_run ops empty_cache))
     = fst ` set (processedMessageTimestamps (cache_run ops empty_cache))"
proof -
  have "cache_inv (cache_run ops empty_cache)"
    by (rule cache_inv_run [OF cache_inv_empty])
  then show ?thesis
    by (simp add: cache_inv_def)
qed

lemma ids_delete_entry [simp]:
  "processedMessageIds (delete_entry k c) = removeAll k (processedMessageIds c)"
  by (simp add: delete_entry_def)

lemma ids_cleanup_loop:
  "processedMessageIds (cleanup_loop now es c)
     = filter (\<lambda>k. k \<notin> expired_keys now es) (processedMessageIds c)"
proof (induction es arbitrary: c)
  case Nil
  then show ?case by (simp add: expired_keys_def)
next
  case (Cons e es)
  obtain k t where e: "e = (k, t)" by (cases e)
  show ?case
  proof (cases "now - t > DEDUP_CACHE_TTL")
    case True
    then have "expired_keys now (e # es) = insert k (expired_keys now es)"
      by (auto simp: expired_keys_def e)
    with True show ?thesis
      by (auto simp: e Cons.IH removeAll_filter_not_eq intro: filter_cong)
  next
    case False
    then have "expired_keys now (e # es) = expired_keys now es"
      by (auto simp: expired_keys_def e)
    with False show ?thesis
      by (simp add: e Cons.IH)
  qed
qed

lemma expired_keys_iff:
  assumes "cache_inv c"
  shows "k \<in> expired_keys now (processedMessageTimestamps c) \<longleftrightarrow> expired now c k"
proof -
  from assms have d: "distinct (map fst (processedMessageTimestamps c))"
    by (auto simp: cache_inv_def)
  show ?thesis
    by (auto simp: expired_keys_def expired_def map_of_eq_Some_iff [OF d, symmetric]
          split: option.splits)
qed

lemma processed_cleanup:
  assumes "cache_inv c"
  shows "isMessageProcessed k (cleanupDedupCache now c)
           \<longleftrightarrow> isMessageProcessed k c \<and> \<not> expired now c k"
  using expired_keys_iff [OF assms, of k now]
  by (auto simp: isMessageProcessed_def cleanupDedupCache_def ids_cleanup_loop)

lemma processed_evict_oldest:
  "isMessageProcessed k (evict_oldest c)
           \<longleftrightarrow> isMessageProcessed k c
               \<and> \<not> (first_key (processedMessageTimestamps c) = Some k \<and> k \<noteq> [])"
  by (auto simp: isMessageProcessed_def evict_oldest_def split: option.splits)

lemma processed_mark:
  "isMessageProcessed k (markMessageProcessed tc ti k' c)
     \<longleftrightarrow> k = k' \<or> isMessageProcessed k
          (if at_capacity c then
             (if at_capacity (cleanupDedupCache tc c) then evict_oldest (cleanupDedupCache tc c)
              else cleanupDedupCache tc c)
           else c)"
  by (auto simp: isMessageProcessed_def markMessageProcessed_def Let_def set_add_def at_capacity_def)

lemma processed_step:
  assumes "cache_inv c" and "isMessageProcessed k c"
  shows "isMessageProcessed k (cache_step op c)
           = (marks op k \<or> \<not> (ttl_expiry op c k \<or> capacity_eviction op c k \<or> explicit_clear op))"
proof (cases op)
  case (MarkProcessed tc ti k')
  have inv': "cache_inv (cleanupDedupCache tc c)"
    by (rule cache_inv_cleanup [OF assms(1)])
  show ?thesis
    using assms(2)
    by (auto simp: MarkProcessed processed_mark processed_cleanup [OF assms(1)]
          processed_evict_oldest)
next
  case (Cleanup now)
  then show ?thesis
    using assms(2) by (simp add: processed_cleanup [OF assms(1)])
next
  case Clear
  then show ?thesis
    by (simp add: clearDedupCache_def isMessageProcessed_def)
qed

text \<open>
  Claim C7. After \<open>markMessageProcessed k\<close> the key \<open>k\<close> is processed. In every cache
  reached from the empty one, a processed key stays processed across the next operation
  unless that operation is one of the three removal events (the key has outlived the TTL
  and a cleanup pass runs, the key is evicted by an insert at capacity, the cache is
  cleared), and each of these does remove it, except that an insert of \<open>k\<close> itself always
  leaves \<open>k\<close> processed.
\<close>

theorem processed_until_removed:
  assumes "c = cache_run ops empty_cache"
  shows "isMessageProcessed k (markMessageProcessed now_cleanup now_set k c)
       \<and> (isMessageProcessed k c \<longrightarrow>
            isMessageProcessed k (cache_step op c)
              = (marks op k
                 \<or> \<not> (ttl_expiry op c k \<or> capacity_eviction op c k \<or> explicit_clear op)))"
proof -
  have "cache_inv c"
    unfolding assms by (rule cache_inv_run [OF cache_inv_empty])
  then show ?thesis
    by (simp add: processed_mark processed_step)
qed

theorem processed_until_removed_witness:
  "isMessageProcessed ''a:m1'' (cache_run [MarkProcessed 0 0 ''a:m1''] empty_cache)
   \<and> isMessageProcessed ''a:m1''
        (cache_step (Cleanup 300000) (cache_run [MarkProcessed 0 0 ''a:m1''] empty_cache))
   \<and> \<not> isMessageProcessed ''a:m1''
        (cache_step (Cleanup 300001) (cache_run [MarkProcessed 0 0 ''a:m1''] empty_cache))
   \<and> \<not> isMessageProcessed ''a:m1''
        (cache_step Clear (cache_run [MarkProcessed 0 0 ''a:m1''] empty_cache))"
proof -
  let ?c = "cache_run [MarkProcessed 0 0 ''a:m1''] empty_cache"
  have c: "markMessageProcessed 0 0 ''a:m1'' empty_cache
             = \<lparr>processedMessageIds = [''a:m1''], processedMessageTimestamps = [(''a:m1'', 0)]\<rparr>"
    by (simp add: markMessageProcessed_def empty_cache_def DEDUP_CACHE_MAX_SIZE_def set_add_def)
  have p: "isMessageProcessed ''a:m1'' ?c"
    using processed_until_removed [of empty_cache "[]" "''a:m1''" 0 0 Clear]
    by simp
  have "isMessageProcessed ''a:m1'' (cache_step (Cleanup 300000) ?c)"
    using processed_until_removed [of ?c "[MarkProcessed 0 0 ''a:m1'']" "''a:m1''" 0 0 "Cleanup 300000"] p
    by (simp add: c expired_def DEDUP_CACHE_TTL_def)
  moreover have "\<not> isMessageProcessed ''a:m1'' (cache_step (Cleanup 300001) ?c)"
    using processed_until_removed [of ?c "[MarkProcessed 0 0 ''a:m1'']" "''a:m1''" 0 0 "Cleanup 300001"] p
    by (simp add: c expired_def DEDUP_CACHE_TTL_def)
  moreover have "\<not> isMessageProcessed ''a:m1'' (cache_step Clear ?c)"
    using processed_until_removed [of ?c "[MarkProcessed 0 0 ''a:m1'']" "''a:m1''" 0 0 Clear] p
    by simp
  ultimately show ?thesis using p by blast
qed










lemma length_cleanup_le:
  "length (processedMessageIds (cleanupDedupCache now c)) \<le> length (processedMessageIds c)"
  by (simp add: cleanupDedupCache_def ids_cleanup_loop)

lemma set_cleanup_subset:
  "set (processedMessageIds (cleanupDedupCache now c)) \<subseteq> set (processedMessageIds c)"
  by (auto simp: cleanupDedupCache_def ids_cleanup_loop)

lemma bounded_cleanup: "bounded c \<Longrightarrow> bounded (cleanupDedupCache now c)"
  using length_cleanup_le [of now c] set_cleanup_subset [of now c]
  by (auto simp: bounded_def cache_inv_cleanup)

lemma evict_oldest_shrinks:
  assumes "bounded c" and "processedMessageIds c \<noteq> []"
  shows "Suc (length (processedMessageIds (evict_oldest c))) = length (processedMessageIds c)"
proof -
  from assms have inv: "processedMessageIds c = map fst (processedMessageTimestamps c)"
    and dist: "distinct (processedMessageIds c)"
    and ne: "[] \<notin> set (processedMessageIds c)"
    unfolding bounded_def cache_inv_def by blast+
  from assms(2) inv obtain k t rest where ts: "processedMessageTimestamps c = (k, t) # rest"
    by (cases "processedMessageTimestamps c") auto
  have ids: "processedMessageIds c = k # map fst rest"
    by (simp add: inv ts)
  from dist ne have "k \<notin> set (map fst rest)" and "k \<noteq> []"
    by (auto simp: ids)
  then show ?thesis
    by (simp add: evict_oldest_def first_key_def ts ids)
qed

lemma bounded_delete_entry: "bounded c \<Longrightarrow> bounded (delete_entry k c)"
  by (auto simp: bounded_def cache_inv_delete_entry
        intro: le_trans [OF length_removeAll_less_eq])

lemma bounded_evict_oldest: "bounded c \<Longrightarrow> bounded (evict_oldest c)"
  by (simp add: evict_oldest_def bounded_delete_entry split: option.splits)

lemma length_set_add: "length (set_add k xs) \<le> Suc (length xs)"
  by (simp add: set_add_def)

lemma bounded_mark:
  assumes "bounded c" and "k \<noteq> []"
  shows "bounded (markMessageProcessed tc ti k c)"
proof -
  define c1 where "c1 =
        (if length (processedMessageIds c) \<ge> DEDUP_CACHE_MAX_SIZE then
           (let c' = cleanupDedupCache tc c in
            if length (processedMessageIds c') \<ge> DEDUP_CACHE_MAX_SIZE
            then evict_oldest c' else c')
         else c)"
  have b1: "bounded c1"
    using assms(1) by (simp add: c1_def Let_def bounded_cleanup bounded_evict_oldest)
  have "length (processedMessageIds c1) < DEDUP_CACHE_MAX_SIZE"
  proof (cases "length (processedMessageIds c) \<ge> DEDUP_CACHE_MAX_SIZE")
    case False
    then show ?thesis by (simp add: c1_def)
  next
    case True
    let ?c' = "cleanupDedupCache tc c"
    have b': "bounded ?c'" by (rule bounded_cleanup [OF assms(1)])
    show ?thesis
    proof (cases "length (processedMessageIds ?c') \<ge> DEDUP_CACHE_MAX_SIZE")
      case False
      with True show ?thesis by (simp add: c1_def)
    next
      case full: True
      then have "processedMessageIds ?c' \<noteq> []"
        by (auto simp: DEDUP_CACHE_MAX_SIZE_def)
      from evict_oldest_shrinks [OF b' this] b'
      have "length (processedMessageIds (evict_oldest ?c')) < DEDUP_CACHE_MAX_SIZE"
        by (simp add: bounded_def)
      with True full show ?thesis by (simp add: c1_def)
    qed
  qed
  with b1 assms(2) have "bounded (c1\<lparr>processedMessageIds := set_add k (processedMessageIds c1),
            processedMessageTimestamps := AList.update k ti (processedMessageTimestamps c1)\<rparr>)"
    using cache_inv_add [of c1 k ti] length_set_add [of k "processedMessageIds c1"]
    by (auto simp: bounded_def set_add_def)
  then show ?thesis
    by (simp add: markMessageProcessed_def c1_def Let_def)
qed

lemma bounded_step: "bounded c \<Longrightarrow> nonempty_key op \<Longrightarrow> bounded (cache_step op c)"
proof (cases op)
  case Clear
  assume "bounded c"
  have "cache_inv (clearDedupCache c)" by (rule cache_inv_clear)
  then show ?thesis
    by (simp add: Clear bounded_def) (simp add: clearDedupCache_def)
qed (simp_all add: bounded_mark bounded_cleanup)

lemma bounded_run: "bounded c \<Longrightarrow> list_all nonempty_key ops \<Longrightarrow> bounded (cache_run ops c)"
  by (induction ops arbitrary: c) (simp_all add: bounded_step)

lemma capacity_respected_nonempty_keys:
  "list_all nonempty_key ops \<Longrightarrow>
     length (processedMessageIds (cache_run ops empty_cache)) \<le> DEDUP_CACHE_MAX_SIZE"
  using bounded_run [of empty_cache ops]
  by (simp add: bounded_def cache_inv_empty) (simp add: empty_cache_def)

section \<open>The invariant of the connection slot\<close>

lemmas closure_defs =
  finalizeResolve_def finalizeReject_def cleanup_def resolve_def reject_def settle_def
  removeEventListener_def unlisten_def set_stopped_def emit_def runtime_log_def
  runtime_error_def

lemma session_effects_emit [simp]:
  "session_effects m (emit e st)
     = session_effects m st @ (if effect_session e = Some m then [e] else [])"
  by (simp add: session_effects_def emit_def)

lemma finalizeResolve_slot:
  assumes "\<not> session_stopped (sessions st n)" and "currentClient st = Some n"
  shows "currentClient (finalizeResolve n st) = None"
    and "currentAccountId (finalizeResolve n st) = None"
    and "currentStop (finalizeResolve n st) = None"
    and "currentPromise (finalizeResolve n st) = None"
    and "next_handle (finalizeResolve n st) = next_handle st"
    and "dedup (finalizeResolve n st) = dedup st"
  using assms by (simp_all add: closure_defs Let_def split: option.splits)

lemma finalizeResolve_signals:
  assumes "\<not> session_stopped (sessions st n)"
  shows "aborted (signals (finalizeResolve n st) g) = aborted (signals st g)"
    and "listeners (signals (finalizeResolve n st) g)
           = (if session_abortSignal (sessions st n) = Some g
              then removeAll n (listeners (signals st g)) else listeners (signals st g))"
  using assms by (simp_all add: closure_defs Let_def split: option.splits)

lemma finalizeResolve_sessions:
  assumes "\<not> session_stopped (sessions st n)"
  shows "m \<noteq> n \<Longrightarrow> sessions (finalizeResolve n st) m = sessions st m"
    and "session_stopped (sessions (finalizeResolve n st) n)"
    and "session_promise (sessions st n) = Pending \<Longrightarrow>
           session_promise (sessions (finalizeResolve n st) n) = Resolved"
    and "session_abortSignal (sessions (finalizeResolve n st) n) = session_abortSignal (sessions st n)"
    and "session_accountId (sessions (finalizeResolve n st) n) = session_accountId (sessions st n)"
    and "session_client (sessions (finalizeResolve n st) n) = session_client (sessions st n)"
  using assms by (simp_all add: closure_defs Let_def split: option.splits)

lemma finalizeResolve_effects:
  assumes "\<not> session_stopped (sessions st n)"
  shows "session_effects m (finalizeResolve n st)
           = session_effects m st @ (if m = n then teardown_effects n st else [])"
  using assms
  by (simp add: closure_defs Let_def teardown_effects_def session_effects_def split: option.splits)

lemma finalizeReject_slot:
  assumes "\<not> session_stopped (sessions st n)" and "currentClient st = Some n"
  shows "currentClient (finalizeReject n err st) = None"
    and "currentAccountId (finalizeReject n err st) = None"
    and "currentStop (finalizeReject n err st) = None"
    and "currentPromise (finalizeReject n err st) = None"
    and "next_handle (finalizeReject n err st) = next_handle st"
    and "dedup (finalizeReject n err st) = dedup st"
  using assms by (simp_all add: closure_defs Let_def split: option.splits)

lemma finalizeReject_signals:
  assumes "\<not> session_stopped (sessions st n)"
  shows "aborted (signals (finalizeReject n err st) g) = aborted (signals st g)"
    and "listeners (signals (finalizeReject n err st) g)
           = (if session_abortSignal (sessions st n) = Some g
              then removeAll n (listeners (signals st g)) else listeners (signals st g))"
  using assms by (simp_all add: closure_defs Let_def split: option.splits)

lemma finalizeReject_effects_other:
  assumes "m \<noteq> n"
  shows "session_effects m (finalizeReject n err st) = session_effects m st"
  using assms
  by (simp add: closure_defs Let_def session_effects_def split: option.splits)

lemma slot_inv_finalizeResolve:
  assumes "\<not> session_stopped (sessions st n)" and "currentClient st = Some n"
    and "only_listener n st"
  shows "slot_inv (finalizeResolve n st)"
proof -
  have "listeners (signals (finalizeResolve n st) g) = []" for g
  proof -
    from assms(3) have "listeners (signals st g) = []
          \<or> (session_abortSignal (sessions st n) = Some g \<and> listeners (signals st g) = [n])"
      by (simp add: only_listener_def)
    then show ?thesis
      by (auto simp: finalizeResolve_signals [OF assms(1)])
  qed
  then show ?thesis
    by (simp add: slot_inv_def finalizeResolve_slot [OF assms(1,2)])
qed

lemma slot_inv_finalizeReject:
  assumes "\<not> session_stopped (sessions st n)" and "currentClient st = Some n"
    and "only_listener n st"
  shows "slot_inv (finalizeReject n err st)"
proof -
  have "listeners (signals (finalizeReject n err st) g) = []" for g
  proof -
    from assms(3) have "listeners (signals st g) = []
          \<or> (session_abortSignal (sessions st n) = Some g \<and> listeners (signals st g) = [n])"
      by (simp add: only_listener_def)
    then show ?thesis
      by (auto simp: finalizeReject_signals [OF assms(1)])
  qed
  then show ?thesis
    by (simp add: slot_inv_def finalizeReject_slot [OF assms(1,2)])
qed

lemma fresh_inv_finalizeResolve:
  assumes "fresh_inv st" and "n < next_handle st"
  shows "fresh_inv (finalizeResolve n st)"
proof (cases "session_stopped (sessions st n)")
  case True
  with assms(1) show ?thesis by (simp add: finalizeResolve_def)
next
  case False
  have "next_handle (finalizeResolve n st) = next_handle st"
    using False by (simp add: closure_defs Let_def split: option.splits)
  with assms show ?thesis
    by (auto simp: fresh_inv_def finalizeResolve_effects [OF False])
qed

lemma fresh_inv_finalizeReject:
  assumes "fresh_inv st" and "n < next_handle st"
  shows "fresh_inv (finalizeReject n err st)"
proof -
  have "next_handle (finalizeReject n err st) = next_handle st"
    by (simp add: closure_defs Let_def split: option.splits)
  with assms show ?thesis
    by (auto simp: fresh_inv_def finalizeReject_effects_other)
qed

lemma monitor_inv_same:
  assumes "monitor_inv st"
    and "currentClient st' = currentClient st" and "currentAccountId st' = currentAccountId st"
    and "currentPromise st' = currentPromise st" and "currentStop st' = currentStop st"
    and "sessions st' = sessions st" and "signals st' = signals st"
    and "next_handle st' = next_handle st"
    and "\<And>m. session_effects m st' = session_effects m st"
  shows "monitor_inv st'"
  using assms(1)
  unfolding monitor_inv_def slot_inv_def fresh_inv_def started_effects_def
  by (simp add: assms(2-) cong: option.case_cong)

lemma monitor_inv_log: "monitor_inv st \<Longrightarrow> monitor_inv (runtime_log msg st)"
  by (erule monitor_inv_same) (simp_all add: runtime_log_def emit_def session_effects_def)

lemma monitor_inv_error: "monitor_inv st \<Longrightarrow> monitor_inv (runtime_error msg st)"
  by (erule monitor_inv_same) (simp_all add: runtime_error_def emit_def session_effects_def)

lemma monitor_inv_callback:
  "monitor_inv st \<Longrightarrow> monitor_inv (snd (robot_callback n tc ti res st))"
  by (erule monitor_inv_same)
     (auto simp: robot_callback_def robot_callback_try_def Let_def runtime_log_def
        runtime_error_def emit_def session_effects_def split: sum.splits)

lemma monitor_inv_handler_rejected: "monitor_inv st \<Longrightarrow> monitor_inv (handler_rejected err st)"
  by (simp add: handler_rejected_def monitor_inv_error)

lemma monitor_inv_clear: "monitor_inv st \<Longrightarrow> monitor_inv (st\<lparr>dedup := c\<rparr>)"
  by (erule monitor_inv_same) (simp_all add: session_effects_def)

lemma only_listener_active:
  assumes "slot_inv st" and "currentClient st = Some n"
  shows "only_listener n st"
  using assms by (auto simp: slot_inv_def only_listener_def)

lemma monitor_inv_stop:
  assumes "monitor_inv st"
  shows "monitor_inv (stopDingtalkMonitor st)"
proof (cases "currentClient st")
  case None
  with assms show ?thesis
    by (simp add: stopDingtalkMonitor_def monitor_inv_def slot_inv_def)
next
  case (Some n)
  with assms have stop: "currentStop st = Some n" and n: "n < next_handle st"
    and live: "\<not> session_stopped (sessions st n)"
    by (simp_all add: monitor_inv_def slot_inv_def)
  let ?st = "runtime_log ''[dingtalk] stop requested, stopping Stream client'' st"
  have inv': "monitor_inv ?st" by (rule monitor_inv_log [OF assms])
  have same: "currentClient ?st = Some n" "sessions ?st = sessions st"
    "next_handle ?st = next_handle st"
    by (simp_all add: runtime_log_def emit_def Some)
  have "only_listener n ?st"
    using inv' same(1) by (simp add: monitor_inv_def only_listener_active)
  with live same have "slot_inv (finalizeResolve n ?st)"
    by (intro slot_inv_finalizeResolve) simp_all
  moreover have "fresh_inv (finalizeResolve n ?st)"
    using inv' n same by (intro fresh_inv_finalizeResolve) (simp_all add: monitor_inv_def)
  ultimately show ?thesis
    by (simp add: stopDingtalkMonitor_def stop stop_hook_def monitor_inv_def)
qed

lemma monitor_inv_abort:
  assumes "monitor_inv st"
  shows "monitor_inv (abort_fires g st)"
proof (cases "aborted (signals st g)")
  case True
  with assms show ?thesis by (simp add: abort_fires_def)
next
  case False
  let ?st1 = "st\<lparr>signals := (signals st)(g := (signals st g)\<lparr>aborted := True\<rparr>)\<rparr>"
  have eff: "session_effects m ?st1 = session_effects m st" for m
    by (simp add: session_effects_def)
  show ?thesis
  proof (cases "listeners (signals st g)")
    case Nil
    have "monitor_inv ?st1"
      using assms Nil unfolding monitor_inv_def slot_inv_def fresh_inv_def started_effects_def
      by (auto simp: eff split: option.splits if_splits)
    with False Nil show ?thesis
      by (simp add: abort_fires_def)
  next
    case (Cons n' ns)
    with assms obtain n where cur: "currentClient st = Some n"
      and sig: "session_abortSignal (sessions st n) = Some g"
      and ls: "listeners (signals st g) = [n]"
      by (cases "currentClient st") (auto simp: monitor_inv_def slot_inv_def split: if_splits)
    from assms cur have n: "n < next_handle st" and live: "\<not> session_stopped (sessions st n)"
      by (simp_all add: monitor_inv_def slot_inv_def)
    let ?st2 = "runtime_log ''[dingtalk] abort signal received, stopping Stream client''
                  (unlisten g n ?st1)"
    have run: "abort_fires g st = finalizeResolve n ?st2"
      using False ls by (simp add: abort_fires_def handleAbort_def unlisten_def)
    have f2: "currentClient ?st2 = Some n" "sessions ?st2 = sessions st"
      "next_handle ?st2 = next_handle st"
      by (simp_all add: runtime_log_def emit_def unlisten_def cur)
    have "listeners (signals ?st2 h) = []" for h
      using assms cur ls sig
      by (auto simp: runtime_log_def emit_def unlisten_def monitor_inv_def slot_inv_def)
    then have "only_listener n ?st2"
      by (simp add: only_listener_def)
    with live f2 have "slot_inv (finalizeResolve n ?st2)"
      by (intro slot_inv_finalizeResolve) simp_all
    moreover have "fresh_inv ?st2"
      using assms
      by (simp add: monitor_inv_def fresh_inv_def runtime_log_def unlisten_def
            session_effects_def emit_def)
    then have "fresh_inv (finalizeResolve n ?st2)"
      using n f2 by (intro fresh_inv_finalizeResolve) simp_all
    ultimately show ?thesis
      by (simp add: run monitor_inv_def)
  qed
qed

lemma slot_inv_idle_promise:
  "slot_inv st \<Longrightarrow> currentClient st = None \<Longrightarrow> slot_inv (st\<lparr>currentPromise := p\<rparr>)"
  by (simp add: slot_inv_def)

lemma fresh_inv_promise: "fresh_inv st \<Longrightarrow> fresh_inv (st\<lparr>currentPromise := p\<rparr>)"
  by (simp add: fresh_inv_def session_effects_def)

lemma only_listener_emit:
  "only_listener n (emit e st) = only_listener n st"
  "only_listener n (runtime_error msg st) = only_listener n st"
  "only_listener n (runtime_log msg st) = only_listener n st"
  by (simp_all add: only_listener_def emit_def runtime_error_def runtime_log_def)

lemma fresh_inv_emit:
  assumes "fresh_inv st" and "effect_session e = None \<or> (\<exists>n<next_handle st. effect_session e = Some n)"
  shows "fresh_inv (emit e st)"
  using assms by (auto simp: fresh_inv_def) (simp_all add: emit_def)

lemma emit_fields [simp]:
  "currentClient (emit e st) = currentClient st"
  "currentAccountId (emit e st) = currentAccountId st"
  "currentPromise (emit e st) = currentPromise st"
  "currentStop (emit e st) = currentStop st"
  "sessions (emit e st) = sessions st"
  "signals (emit e st) = signals st"
  "next_handle (emit e st) = next_handle st"
  "dedup (emit e st) = dedup st"
  "trace (emit e st) = trace st @ [e]"
  by (simp_all add: emit_def)

text \<open>The try block either tears the session down or leaves it connected.\<close>

lemma start_connection_cases:
  assumes "currentClient s = Some n" and "\<not> session_stopped (sessions s n)"
    and "only_listener n s" and "fresh_inv s" and "n < next_handle s"
  shows "(slot_inv (start_connection n s) \<and> currentClient (start_connection n s) = None
            \<and> fresh_inv (start_connection n s))
         \<or> start_connection n s
              = runtime_log ''[dingtalk] Stream client connected''
                  (emit (Connect n) (emit (RegisterCallbackListener n) s))"
proof -
  have tear: "slot_inv (finalizeReject n err (runtime_error msg s'))
        \<and> currentClient (finalizeReject n err (runtime_error msg s')) = None
        \<and> fresh_inv (finalizeReject n err (runtime_error msg s'))"
    if "s' = emit (RegisterCallbackListener n) s \<or> s' = emit (Connect n) (emit (RegisterCallbackListener n) s)"
    for s' err msg
  proof -
    let ?s = "runtime_error msg s'"
    from that assms have a: "currentClient ?s = Some n" "\<not> session_stopped (sessions ?s n)"
      "only_listener n ?s" "n < next_handle ?s"
      by (auto simp: runtime_error_def only_listener_emit)
    from that assms have "fresh_inv ?s"
      unfolding runtime_error_def by (auto intro!: fresh_inv_emit)
    with a show ?thesis
      by (simp add: slot_inv_finalizeReject fresh_inv_finalizeReject finalizeReject_slot)
  qed
  show ?thesis
    unfolding start_connection_def Let_def
    by (auto split: option.splits simp: tear)
qed

text \<open>The state in which the executor of a new session starts.\<close>

lemma start_new_session:
  assumes "currentClient st = None" and "dingtalkCfg opts = Some cfg" and "create cfg = Inr client"
  shows "monitorDingtalkProvider create opts st
           = (Inr (next_handle st),
              (executor (next_handle st) (entered opts client st))
                \<lparr>currentPromise := Some (next_handle st)\<rparr>)"
  using assms
  by (simp add: monitorDingtalkProvider_def Let_def entered_def fresh_session_def)

lemma entered_fields:
  "currentClient (entered opts client st) = Some (next_handle st)"
  "currentAccountId (entered opts client st) = Some (accountId_of opts)"
  "currentPromise (entered opts client st) = currentPromise st"
  "currentStop (entered opts client st) = currentStop st"
  "next_handle (entered opts client st) = Suc (next_handle st)"
  "signals (entered opts client st) = signals st"
  "dedup (entered opts client st) = dedup st"
  "sessions (entered opts client st) (next_handle st) = fresh_session opts client"
  "m \<noteq> next_handle st \<Longrightarrow> sessions (entered opts client st) m = sessions st m"
  "session_effects m (entered opts client st) = session_effects m st"
  by (simp_all add: entered_def runtime_log_def session_effects_def)

lemma session_effects_addEventListener:
  "session_effects m (addEventListener n st)
     = session_effects m st
       @ (case session_abortSignal (sessions st n) of
            None \<Rightarrow> []
          | Some g \<Rightarrow> if m = n then [AddEventListener g n] else [])"
  by (simp add: addEventListener_def session_effects_def emit_def split: option.splits)

lemma monitor_inv_new_session:
  assumes inv: "monitor_inv st" and idle: "currentClient st = None"
  shows "monitor_inv ((executor (next_handle st) (entered opts client st))
                        \<lparr>currentPromise := Some (next_handle st)\<rparr>)"
proof -
  define n where "n = next_handle st"
  define s where "s = (entered opts client st)\<lparr>currentStop := Some n\<rparr>"
  from inv idle have nol: "listeners (signals st g) = []" for g
    by (simp add: monitor_inv_def slot_inv_def)
  from inv have fr: "session_effects m st = []" if "n \<le> m" for m
    using that by (simp add: monitor_inv_def fresh_inv_def n_def)
  have s: "currentClient s = Some n" "\<not> session_stopped (sessions s n)"
    "session_promise (sessions s n) = Pending" "next_handle s = Suc n"
    "session_abortSignal (sessions s n) = opts_abortSignal opts"
    "session_accountId (sessions s n) = accountId_of opts"
    "currentAccountId s = Some (accountId_of opts)" "currentStop s = Some n"
    "signals s = signals st"
    by (simp_all add: s_def n_def entered_fields fresh_session_def)
  have s_eff: "session_effects m s = session_effects m st" for m
    by (simp add: s_def session_effects_def entered_def runtime_log_def)
  have s_fresh: "fresh_inv s"
    using fr by (simp add: fresh_inv_def s s_eff)
  have s_only: "only_listener n s"
    by (simp add: only_listener_def s nol)
  have connect: "monitor_inv ((start_connection n s')\<lparr>currentPromise := Some n\<rparr>)"
    if s': "(opts_abortSignal opts = None \<and> s' = s)
            \<or> (\<exists>g. opts_abortSignal opts = Some g \<and> \<not> aborted (signals st g)
                          \<and> s' = addEventListener n s)" for s'
  proof -
    have f: "currentClient s' = Some n" "\<not> session_stopped (sessions s' n)"
      "session_promise (sessions s' n) = Pending" "next_handle s' = Suc n"
      "session_abortSignal (sessions s' n) = opts_abortSignal opts"
      "session_accountId (sessions s' n) = accountId_of opts"
      "currentAccountId s' = Some (accountId_of opts)" "currentStop s' = Some n"
      using s' s by (auto simp: addEventListener_def)
    have lis: "listeners (signals s' g) = (if opts_abortSignal opts = Some g then [n] else [])"
      for g
      using s' s nol by (auto simp: addEventListener_def)
    have ab: "opts_abortSignal opts = Some g \<Longrightarrow> \<not> aborted (signals s' g)" for g
      using s' s by (auto simp: addEventListener_def)
    have only': "only_listener n s'"
      by (simp add: only_listener_def lis f)
    have eff_other: "session_effects m s' = []" if "Suc n \<le> m" for m
      using s' s that fr [of m]
      by (auto simp: session_effects_addEventListener s_eff)
    have eff_n: "session_effects n s'
                   = (case opts_abortSignal opts of None \<Rightarrow> [] | Some g \<Rightarrow> [AddEventListener g n])"
      using s' fr [of n] s
      by (auto simp: session_effects_addEventListener s_eff)
    have fresh': "fresh_inv s'"
      by (simp add: fresh_inv_def f eff_other)
    from start_connection_cases [OF f(1,2) only' fresh'] f(4)
    consider (torn) "slot_inv (start_connection n s')" "currentClient (start_connection n s') = None"
        "fresh_inv (start_connection n s')"
      | (up) "start_connection n s' = runtime_log ''[dingtalk] Stream client connected''
                  (emit (Connect n) (emit (RegisterCallbackListener n) s'))"
      by auto
    then show ?thesis
    proof cases
      case torn
      then show ?thesis
        by (simp add: monitor_inv_def slot_inv_idle_promise fresh_inv_promise)
    next
      case up
      let ?t = "(start_connection n s')\<lparr>currentPromise := Some n\<rparr>"
      have t: "currentClient ?t = Some n" "next_handle ?t = Suc n" "currentStop ?t = Some n"
        "currentPromise ?t = Some n" "currentAccountId ?t = Some (accountId_of opts)"
        "sessions ?t = sessions s'" "signals ?t = signals s'"
        by (simp_all add: up runtime_log_def f)
      have t_eff: "session_effects m ?t
                     = session_effects m s' @ (if m = n then [RegisterCallbackListener n, Connect n] else [])"
        for m
        by (simp add: up runtime_log_def session_effects_def)
      have "slot_inv ?t"
        unfolding slot_inv_def
        by (simp add: t f t_eff eff_n started_effects_def lis ab)
      moreover have "fresh_inv ?t"
        by (simp add: fresh_inv_def t t_eff eff_other)
      ultimately show ?thesis
        by (simp add: monitor_inv_def)
    qed
  qed
  have "monitor_inv ((executor n (entered opts client st))\<lparr>currentPromise := Some n\<rparr>)"
  proof (cases "opts_abortSignal opts")
    case None
    then have "executor n (entered opts client st) = start_connection n s"
      by (simp add: executor_def s_def n_def entered_fields fresh_session_def)
    with connect [of s] None show ?thesis by simp
  next
    case (Some g)
    show ?thesis
    proof (cases "aborted (signals st g)")
      case True
      then have ex: "executor n (entered opts client st) = finalizeResolve n s"
        using Some by (simp add: executor_def s_def n_def entered_fields fresh_session_def)
      have "slot_inv (finalizeResolve n s)"
        by (rule slot_inv_finalizeResolve [OF s(2,1) s_only])
      moreover have "fresh_inv (finalizeResolve n s)"
        by (rule fresh_inv_finalizeResolve [OF s_fresh]) (simp add: s)
      moreover have "currentClient (finalizeResolve n s) = None"
        by (rule finalizeResolve_slot [OF s(2,1)])
      ultimately show ?thesis
        by (simp add: ex monitor_inv_def slot_inv_idle_promise fresh_inv_promise)
    next
      case False
      then have "executor n (entered opts client st) = start_connection n (addEventListener n s)"
        using Some by (simp add: executor_def s_def n_def entered_fields fresh_session_def)
      with connect [of "addEventListener n s"] Some False show ?thesis by simp
    qed
  qed
  then show ?thesis by (simp add: n_def)
qed

lemma monitor_inv_start:
  assumes "monitor_inv st"
  shows "monitor_inv (snd (monitorDingtalkProvider create opts st))"
proof (cases "currentClient st")
  case (Some n)
  have "monitor_inv (snd (reuse_monitor acct st))" for acct
    using assms by (simp add: reuse_monitor_def Let_def monitor_inv_log split: option.splits)
  with Some assms show ?thesis
    by (simp add: monitorDingtalkProvider_def split: option.splits)
next
  case None
  show ?thesis
  proof (cases "dingtalkCfg opts")
    case noconf: None
    with None assms show ?thesis by (simp add: monitorDingtalkProvider_def)
  next
    case (Some cfg)
    show ?thesis
    proof (cases "create cfg")
      case (Inl err)
      with None Some assms show ?thesis
        by (simp add: monitorDingtalkProvider_def monitor_inv_error)
    next
      case (Inr client)
      show ?thesis
        using start_new_session [of st opts cfg create client] None Some Inr
          monitor_inv_new_session [OF assms None, of opts client]
        by simp
    qed
  qed
qed

lemma monitor_inv_step: "monitor_inv st \<Longrightarrow> monitor_inv (step create a st)"
  by (cases a)
     (simp_all add: monitor_inv_start monitor_inv_stop monitor_inv_abort monitor_inv_callback
        monitor_inv_handler_rejected monitor_inv_clear)

lemma monitor_inv_exec: "monitor_inv st \<Longrightarrow> monitor_inv (exec create as st)"
  by (induction as arbitrary: st) (simp_all add: monitor_inv_step)

lemma monitor_inv_initial: "monitor_inv initial_state"
  by (simp add: monitor_inv_def slot_inv_def fresh_inv_def initial_state_def session_effects_def)

section \<open>Teardown\<close>

lemma stop_idle:
  assumes "monitor_inv st" and "currentClient st = None"
  shows "stopDingtalkMonitor st = st"
  using assms by (simp add: stopDingtalkMonitor_def monitor_inv_def slot_inv_def)

lemma stop_active:
  assumes "monitor_inv st" and "currentClient st = Some n"
  shows "stopDingtalkMonitor st
           = finalizeResolve n (runtime_log ''[dingtalk] stop requested, stopping Stream client'' st)"
  using assms by (simp add: stopDingtalkMonitor_def stop_hook_def monitor_inv_def slot_inv_def)

lemma abort_fires_quiet:
  assumes "monitor_inv st"
    and "currentClient st = None \<or> (currentClient st = Some n \<and> session_abortSignal (sessions st n) \<noteq> Some g)"
  shows "abort_fires g st
           = (if aborted (signals st g) then st
              else st\<lparr>signals := (signals st)(g := (signals st g)\<lparr>aborted := True\<rparr>)\<rparr>)"
proof -
  from assms have "listeners (signals st g) = []"
    by (auto simp: monitor_inv_def slot_inv_def)
  then show ?thesis by (simp add: abort_fires_def)
qed

lemma abort_fires_active:
  assumes "monitor_inv st" and "currentClient st = Some n"
    and "session_abortSignal (sessions st n) = Some g"
  shows "abort_fires g st
           = finalizeResolve n
               (runtime_log ''[dingtalk] abort signal received, stopping Stream client''
                  (unlisten g n (st\<lparr>signals := (signals st)(g := (signals st g)\<lparr>aborted := True\<rparr>)\<rparr>)))"
proof -
  from assms have "listeners (signals st g) = [n]" and "\<not> aborted (signals st g)"
    by (auto simp: monitor_inv_def slot_inv_def)
  then show ?thesis
    by (simp add: abort_fires_def handleAbort_def unlisten_def)
qed

text \<open>One trigger on an idle monitor changes neither the trace nor any session.\<close>

lemma trigger_idle:
  assumes "monitor_inv st" and "currentClient st = None" and "is_trigger a"
  shows "currentClient (step create a st) = None \<and> trace (step create a st) = trace st
         \<and> sessions (step create a st) = sessions st
         \<and> currentAccountId (step create a st) = None"
proof (cases a)
  case Stop
  with assms show ?thesis by (simp add: stop_idle monitor_inv_def slot_inv_def)
next
  case (AbortFires g)
  with assms show ?thesis
    by (simp add: abort_fires_quiet [where n = 0] monitor_inv_def slot_inv_def)
qed (use assms in simp_all)

lemma triggers_idle:
  assumes "monitor_inv st" and "currentClient st = None" and "list_all is_trigger ts"
  shows "currentClient (exec create ts st) = None \<and> trace (exec create ts st) = trace st
         \<and> sessions (exec create ts st) = sessions st
         \<and> currentAccountId (exec create ts st) = None \<and> monitor_inv (exec create ts st)"
  using assms
proof (induction ts arbitrary: st)
  case Nil
  then show ?case by (simp add: monitor_inv_def slot_inv_def)
next
  case (Cons a ts)
  from Cons.prems have a: "is_trigger a" and ts: "list_all is_trigger ts" by simp_all
  note one = trigger_idle [OF Cons.prems(1,2) a, of create]
  have inv': "monitor_inv (step create a st)"
    by (rule monitor_inv_step [OF Cons.prems(1)])
  from Cons.IH [OF inv' _ ts] one show ?case by simp
qed

text \<open>One trigger on the active session: it either passes it by or tears it down.\<close>

lemma finalizeResolve_torn:
  assumes "\<not> session_stopped (sessions s n)" and "currentClient s = Some n"
    and "session_promise (sessions s n) = Pending"
    and "sessions s = sessions st" and "session_effects n s = session_effects n st"
  shows "currentClient (finalizeResolve n s) = None
         \<and> session_effects n (finalizeResolve n s) = session_effects n st @ teardown_effects n st
         \<and> session_promise (sessions (finalizeResolve n s) n) = Resolved"
  using assms
  by (simp add: finalizeResolve_slot finalizeResolve_effects finalizeResolve_sessions
        teardown_effects_def)

lemma trigger_active:
  assumes "monitor_inv st" and "currentClient st = Some n" and "is_trigger a"
  shows "if reaches n st a
         then currentClient (step create a st) = None
              \<and> session_effects n (step create a st)
                  = session_effects n st @ teardown_effects n st
              \<and> session_promise (sessions (step create a st) n) = Resolved
         else currentClient (step create a st) = Some n
              \<and> session_effects n (step create a st) = session_effects n st
              \<and> sessions (step create a st) = sessions st"
proof -
  from assms have live: "\<not> session_stopped (sessions st n)"
    and pend: "session_promise (sessions st n) = Pending"
    by (simp_all add: monitor_inv_def slot_inv_def)
  show ?thesis
  proof (cases a)
    case Stop
    let ?s = "runtime_log ''[dingtalk] stop requested, stopping Stream client'' st"
    have "currentClient ?s = Some n" "sessions ?s = sessions st"
      "session_effects n ?s = session_effects n st"
      using assms(2) by (simp_all add: runtime_log_def session_effects_def)
    with live pend finalizeResolve_torn [of ?s n st] show ?thesis
      by (simp add: Stop stop_active [OF assms(1,2)])
  next
    case (AbortFires g)
    show ?thesis
    proof (cases "session_abortSignal (sessions st n) = Some g")
      case True
      let ?s = "runtime_log ''[dingtalk] abort signal received, stopping Stream client''
                  (unlisten g n (st\<lparr>signals := (signals st)(g := (signals st g)\<lparr>aborted := True\<rparr>)\<rparr>))"
      have "currentClient ?s = Some n" "sessions ?s = sessions st"
        "session_effects n ?s = session_effects n st"
        using assms(2) by (simp_all add: runtime_log_def session_effects_def unlisten_def)
      with live pend finalizeResolve_torn [of ?s n st] show ?thesis
        by (simp add: AbortFires True abort_fires_active [OF assms(1,2) True])
    next
      case False
      with assms(2) show ?thesis
        by (simp add: AbortFires abort_fires_quiet [OF assms(1), of n g] session_effects_def)
    qed
  qed (use assms in simp_all)
qed

lemma triggers_active:
  assumes "monitor_inv st" and "currentClient st = Some n" and "list_all is_trigger ts"
  shows "if list_ex (reaches n st) ts
         then currentClient (exec create ts st) = None
              \<and> session_effects n (exec create ts st)
                  = session_effects n st @ teardown_effects n st
              \<and> session_promise (sessions (exec create ts st) n) = Resolved
              \<and> currentAccountId (exec create ts st) = None
         else currentClient (exec create ts st) = Some n
              \<and> session_effects n (exec create ts st) = session_effects n st"
  using assms
proof (induction ts arbitrary: st)
  case Nil
  then show ?case by simp
next
  case (Cons a ts)
  from Cons.prems have a: "is_trigger a" and ts: "list_all is_trigger ts" by simp_all
  have inv': "monitor_inv (step create a st)"
    by (rule monitor_inv_step [OF Cons.prems(1)])
  note one = trigger_active [OF Cons.prems(1,2) a, of create]
  show ?case
  proof (cases "reaches n st a")
    case True
    with one have idle: "currentClient (step create a st) = None"
      and eff: "session_effects n (step create a st) = session_effects n st @ teardown_effects n st"
      and res: "session_promise (sessions (step create a st) n) = Resolved"
      by simp_all
    from triggers_idle [OF inv' idle ts, of create] eff res True show ?thesis
      by (simp add: session_effects_def)
  next
    case False
    with one have act: "currentClient (step create a st) = Some n"
      and eff: "session_effects n (step create a st) = session_effects n st"
      and same: "sessions (step create a st) = sessions st"
      by simp_all
    have r: "reaches n (step create a st) b = reaches n st b" for b :: "'a action"
      by (cases b) (simp_all add: same)
    have td: "teardown_effects n (step create a st) = teardown_effects n st"
      by (simp add: teardown_effects_def same)
    from Cons.IH [OF inv' act ts] False show ?thesis
      by (simp add: r eff td cong: list_ex_cong)
  qed
qed

lemma count_list_filter_keep: "P e \<Longrightarrow> count_list (filter P xs) e = count_list xs e"
  by (induction xs) auto

lemma count_session_effect:
  "effect_session e = Some n \<Longrightarrow> count_list (trace st) e = count_list (session_effects n st) e"
  by (simp add: session_effects_def count_list_filter_keep)

text \<open>
  Claim C2. Take a reachable state in which session \<open>n\<close> holds the slot, and any sequence
  of manual stops and abort signals. The calls made for the session are then those of its
  start followed by exactly one teardown (remove the abort listener if there is a signal,
  disconnect, resolve) if some trigger of the sequence reaches the session, and those of
  its start alone otherwise; so \<open>disconnect\<close> and \<open>resolve\<close> are each called once or not
  at all. After the teardown the monitor is inactive with no account id, the promise is
  resolved, and one more \<open>stopDingtalkMonitor\<close> changes nothing.
\<close>

theorem teardown_exactly_once:
  assumes "st = exec create acts initial_state"
      and "currentClient st = Some n"
      and "list_all is_trigger ts"
  shows "session_effects n (exec create ts st)
           = started_effects n st @ (if list_ex (reaches n st) ts then teardown_effects n st else [])
       \<and> count_list (trace (exec create ts st)) (Disconnect n)
           = (if list_ex (reaches n st) ts then 1 else 0)
       \<and> count_list (trace (exec create ts st)) (ResolveCalled n)
           = (if list_ex (reaches n st) ts then 1 else 0)
       \<and> (list_ex (reaches n st) ts \<longrightarrow>
            \<not> isMonitorActive (exec create ts st)
            \<and> getCurrentAccountId (exec create ts st) = None
            \<and> session_promise (sessions (exec create ts st) n) = Resolved
            \<and> stopDingtalkMonitor (exec create ts st) = exec create ts st)"
proof -
  have inv: "monitor_inv st"
    unfolding assms(1) by (rule monitor_inv_exec [OF monitor_inv_initial])
  then have inv': "monitor_inv (exec create ts st)"
    by (rule monitor_inv_exec)
  from inv assms(2) have started: "session_effects n st = started_effects n st"
    by (simp add: monitor_inv_def slot_inv_def)
  note main = triggers_active [OF inv assms(2,3), of create]
  have eff: "session_effects n (exec create ts st)
           = started_effects n st @ (if list_ex (reaches n st) ts then teardown_effects n st else [])"
    using main started by (simp split: if_splits)
  have "count_list (session_effects n (exec create ts st)) (Disconnect n)
           = (if list_ex (reaches n st) ts then 1 else 0)"
    and "count_list (session_effects n (exec create ts st)) (ResolveCalled n)
           = (if list_ex (reaches n st) ts then 1 else 0)"
    by (simp_all add: eff started_effects_def teardown_effects_def split: option.splits)
  moreover have "stopDingtalkMonitor (exec create ts st) = exec create ts st"
    if "list_ex (reaches n st) ts"
    using main that by (intro stop_idle [OF inv']) simp
  ultimately show ?thesis
    using main eff
    by (simp add: count_session_effect [of _ n] isMonitorActive_def getCurrentAccountId_def)
qed

lemmas eval_defs =
  monitorDingtalkProvider_def stopDingtalkMonitor_def abort_fires_def executor_def
  start_connection_def addEventListener_def stop_hook_def handleAbort_def closure_defs
  initial_state_def accept_config_def start_opts_def dingtalkCfg_def accountId_of_def
  reuse_monitor_def reuse_line_def no_client_def Let_def


lemma session_A_fields:
  "currentClient session_A = Some 0"
  "currentAccountId session_A = Some ''A''"
  "session_abortSignal (sessions session_A 0) = Some 7"
  by (simp_all add: session_A_def eval_defs)

lemma session_A_eval:
  "currentClient session_A = Some 0"
  "sessions session_A 0
     = \<lparr>session_accountId = ''A'', session_abortSignal = Some 7, session_stopped = False,
        session_promise = Pending, session_client = no_client\<rparr>"
  "dedup session_A = empty_cache"
  "handler_calls session_A = []"
  by (simp_all add: session_A_def eval_defs handler_calls_def)

theorem teardown_exactly_once_witness:
  "currentClient (exec accept_config [Start (start_opts (Some ''A'') (Some 7))] initial_state) = Some 0
   \<and> list_all is_trigger [Stop, AbortFires 7, Stop :: unit action]
   \<and> session_effects 0
        (exec accept_config [Stop, AbortFires 7, Stop]
           (exec accept_config [Start (start_opts (Some ''A'') (Some 7))] initial_state))
      = [AddEventListener 7 0, RegisterCallbackListener 0, Connect 0,
         RemoveEventListener 7 0, Disconnect 0, ResolveCalled 0]
   \<and> count_list
        (trace (exec accept_config [Stop, AbortFires 7, Stop]
           (exec accept_config [Start (start_opts (Some ''A'') (Some 7))] initial_state)))
        (Disconnect 0) = 1"
proof -
  let ?st = "exec accept_config [Start (start_opts (Some ''A'') (Some 7))] initial_state"
  have a: "currentClient ?st = Some 0" and s: "session_abortSignal (sessions ?st 0) = Some 7"
    using session_A_fields by (simp_all add: session_A_def)
  have t: "list_all is_trigger [Stop, AbortFires 7, Stop :: unit action]" by simp
  from teardown_exactly_once [OF refl a t] s a t show ?thesis
    by (simp add: started_effects_def teardown_effects_def)
qed

section \<open>The robot callback\<close>

lemma duplicate_dropped:
  assumes "decode res = Inr m"
    and "isMessageProcessed (dedupeId (session_accountId (sessions st n)) m) (dedup st)"
  shows "robot_callback n tc ti res st
           = (Inr SUCCESS,
              runtime_log (duplicate_line (dedupeId (session_accountId (sessions st n)) m)) st)"
  using assms by (simp add: robot_callback_def robot_callback_try_def)

lemma novel_forwarded:
  assumes "decode res = Inr m"
    and "\<not> isMessageProcessed (dedupeId (session_accountId (sessions st n)) m) (dedup st)"
  shows "robot_callback n tc ti res st
           = (Inr SUCCESS,
              emit (HandleMessage n m)
                (runtime_log (received_line m)
                   (st\<lparr>dedup := markMessageProcessed tc ti
                                   (dedupeId (session_accountId (sessions st n)) m) (dedup st)\<rparr>)))"
  using assms by (simp add: robot_callback_def robot_callback_try_def Let_def)

text \<open>
  Claim C1. Two deliveries with the same dedupe key, the first in a state where the key
  is not yet processed, the second in a state \<open>mid\<close> where it still is (nothing has
  expired, evicted or cleared it). The first is acknowledged and, having marked the key,
  calls the handler once, in a state where the key is already processed. The second is
  acknowledged, calls no handler and reports no error: it only writes the log line about
  the duplicate.
\<close>

theorem duplicate_delivery_reaches_handler_once:
  assumes "decode res1 = Inr m1"
      and "dedupeId (session_accountId (sessions st n1)) m1 = key"
      and "\<not> isMessageProcessed key (dedup st)"
      and "decode res2 = Inr m2"
      and "dedupeId (session_accountId (sessions mid n2)) m2 = key"
      and "isMessageProcessed key (dedup mid)"
  shows "fst (robot_callback n1 ta ta' res1 st) = Inr SUCCESS
       \<and> (\<exists>marked. snd (robot_callback n1 ta ta' res1 st) = emit (HandleMessage n1 m1) marked
                    \<and> isMessageProcessed key (dedup marked)
                    \<and> handler_calls marked = handler_calls st)
       \<and> handler_calls (snd (robot_callback n1 ta ta' res1 st))
           = handler_calls st @ [HandleMessage n1 m1]
       \<and> isMessageProcessed key (dedup (snd (robot_callback n1 ta ta' res1 st)))
       \<and> robot_callback n2 tb tb' res2 mid = (Inr SUCCESS, runtime_log (duplicate_line key) mid)
       \<and> handler_calls (snd (robot_callback n2 tb tb' res2 mid)) = handler_calls mid"
proof -
  let ?marked = "runtime_log (received_line m1)
                   (st\<lparr>dedup := markMessageProcessed ta ta' key (dedup st)\<rparr>)"
  have first: "robot_callback n1 ta ta' res1 st = (Inr SUCCESS, emit (HandleMessage n1 m1) ?marked)"
    using novel_forwarded [of res1 m1 st n1 ta ta'] assms(1-3) by simp
  have marked: "isMessageProcessed key (dedup ?marked)"
    by (simp add: runtime_log_def processed_mark)
  have calls: "handler_calls ?marked = handler_calls st"
    by (simp add: handler_calls_def runtime_log_def)
  have second: "robot_callback n2 tb tb' res2 mid = (Inr SUCCESS, runtime_log (duplicate_line key) mid)"
    using duplicate_dropped [of res2 m2 mid n2 tb tb'] assms(4-6) by simp
  have "handler_calls (emit (HandleMessage n1 m1) ?marked) = handler_calls st @ [HandleMessage n1 m1]"
    using calls by (simp add: handler_calls_def)
  moreover have "handler_calls (runtime_log (duplicate_line key) mid) = handler_calls mid"
    by (simp add: handler_calls_def runtime_log_def)
  ultimately show ?thesis
    using marked calls by (auto simp: first second)
qed

theorem duplicate_delivery_reaches_handler_once_witness:
  "fst (robot_callback 0 0 0 hello_event session_A) = Inr SUCCESS
   \<and> robot_callback 0 1000 1000 hello_event (snd (robot_callback 0 0 0 hello_event session_A))
       = (Inr SUCCESS,
          runtime_log (duplicate_line ''A:m1'') (snd (robot_callback 0 0 0 hello_event session_A)))
   \<and> handler_calls
        (snd (robot_callback 0 1000 1000 hello_event
                (snd (robot_callback 0 0 0 hello_event session_A))))
       = [HandleMessage 0 (hello\<lparr>streamMessageId := Some ''m1''\<rparr>)]"
proof -
  let ?m = "hello\<lparr>streamMessageId := Some ''m1''\<rparr>"
  let ?mid = "snd (robot_callback 0 0 0 hello_event session_A)"
  have d: "decode hello_event = Inr ?m"
    by (simp add: decode_def hello_event_def)
  have k: "dedupeId (session_accountId (sessions session_A 0)) ?m = ''A:m1''"
    by (simp add: session_A_eval dedupeId_def)
  have new: "\<not> isMessageProcessed ''A:m1'' (dedup session_A)"
    by (simp add: session_A_eval isMessageProcessed_def empty_cache_def)
  have mid: "?mid = emit (HandleMessage 0 ?m)
                (runtime_log (received_line ?m)
                   (session_A\<lparr>dedup := markMessageProcessed 0 0 ''A:m1'' (dedup session_A)\<rparr>))"
    using novel_forwarded [of hello_event ?m session_A 0 0 0] d k new by simp
  have k': "dedupeId (session_accountId (sessions ?mid 0)) ?m = ''A:m1''"
    by (simp add: mid runtime_log_def session_A_eval dedupeId_def)
  have old: "isMessageProcessed ''A:m1'' (dedup ?mid)"
    by (simp add: mid runtime_log_def processed_mark)
  have quiet: "handler_calls (runtime_log msg st) = handler_calls st" for msg st
    by (simp add: handler_calls_def runtime_log_def)
  from duplicate_delivery_reaches_handler_once [OF d k new d k' old, of 0 0 1000 1000]
  show ?thesis
    by (simp add: session_A_eval quiet)
qed

text \<open>
  Claim C9. The robot callback returns \<open>EventAck.SUCCESS\<close> for every event, whether its
  payload decodes or not and whether it is a duplicate or not. Neither the callback nor
  the later rejection of a handler call touches the connection lifecycle: the slot, every
  session and its promise, the abort signals, and the calls made on clients, signals and
  promises stay as they were.
\<close>

theorem callback_always_acknowledges:
  "fst (robot_callback n now_cleanup now_set res st) = Inr SUCCESS
   \<and> lifecycle (snd (robot_callback n now_cleanup now_set res st)) = lifecycle st
   \<and> lifecycle (handler_rejected err st) = lifecycle st"
  by (auto simp: robot_callback_def robot_callback_try_def handler_rejected_def Let_def
        lifecycle_def lifecycle_calls_def runtime_log_def runtime_error_def
        split: sum.splits)

section \<open>Starting a session\<close>

text \<open>
  Claim C8. With no session active and no DingTalk configuration in the options, the
  start fails with the configuration error and leaves the whole state as it was: no
  client handle is given out, nothing is logged, no call is made, and the monitor is
  still inactive.
\<close>

theorem missing_configuration_fails_fast:
  assumes "\<not> isMonitorActive st" and "dingtalkCfg opts = None"
  shows "monitorDingtalkProvider create opts st = (Inl ''DingTalk configuration not found'', st)
       \<and> \<not> isMonitorActive (snd (monitorDingtalkProvider create opts st))"
  using assms by (simp add: monitorDingtalkProvider_def isMonitorActive_def)

theorem missing_configuration_fails_fast_witness:
  "\<not> isMonitorActive initial_state
   \<and> dingtalkCfg unconfigured_opts = None
   \<and> monitorDingtalkProvider accept_config unconfigured_opts initial_state
       = (Inl ''DingTalk configuration not found'', initial_state)"
proof -
  have a: "\<not> isMonitorActive initial_state"
    by (simp add: isMonitorActive_def initial_state_def)
  have b: "dingtalkCfg unconfigured_opts = None"
    by (simp add: dingtalkCfg_def unconfigured_opts_def)
  from missing_configuration_fails_fast [OF a b, of accept_config] a b show ?thesis
    by simp
qed

text \<open>
  Claim C6. With no session active, a configuration the factory accepts, and an abort
  signal that has already fired, the start returns a promise that is already resolved;
  afterwards the monitor is inactive with no account id. The calls it made are the
  removal of the (never added) abort listener, one disconnect and the resolve: no
  callback was registered and no connection opened.
\<close>

theorem start_with_aborted_signal:
  assumes "\<not> isMonitorActive st"
      and "dingtalkCfg opts = Some cfg" and "create cfg = Inr client"
      and "opts_abortSignal opts = Some g" and "aborted (signals st g)"
  shows "fst (monitorDingtalkProvider create opts st) = Inr (next_handle st)
       \<and> session_promise (sessions (snd (monitorDingtalkProvider create opts st)) (next_handle st))
           = Resolved
       \<and> \<not> isMonitorActive (snd (monitorDingtalkProvider create opts st))
       \<and> getCurrentAccountId (snd (monitorDingtalkProvider create opts st)) = None
       \<and> trace (snd (monitorDingtalkProvider create opts st))
           = trace st
             @ [Log (''[dingtalk] starting Stream connection for account ''
                      @ accountId_of opts @ ''...''),
                RemoveEventListener g (next_handle st), Disconnect (next_handle st)]
             @ (case disconnect_throws client of
                  None \<Rightarrow> []
                | Some err \<Rightarrow> [Error (''[dingtalk] failed to disconnect client: '' @ err)])
             @ [ResolveCalled (next_handle st)]"
proof -
  from assms(1) have idle: "currentClient st = None"
    by (simp add: isMonitorActive_def)
  let ?n = "next_handle st"
  let ?s = "(entered opts client st)\<lparr>currentStop := Some ?n\<rparr>"
  have ex: "executor ?n (entered opts client st) = finalizeResolve ?n ?s"
    using assms(4,5) by (simp add: executor_def entered_fields fresh_session_def)
  have run: "monitorDingtalkProvider create opts st
               = (Inr ?n, (finalizeResolve ?n ?s)\<lparr>currentPromise := Some ?n\<rparr>)"
    using start_new_session [of st opts cfg create client] idle assms(2,3) by (simp add: ex)
  have live: "\<not> session_stopped (sessions ?s ?n)" and cur: "currentClient ?s = Some ?n"
    and pend: "session_promise (sessions ?s ?n) = Pending"
    by (simp_all add: entered_fields fresh_session_def)
  have tr: "trace (finalizeResolve ?n ?s)
           = trace st
             @ [Log (''[dingtalk] starting Stream connection for account ''
                      @ accountId_of opts @ ''...''),
                RemoveEventListener g ?n, Disconnect ?n]
             @ (case disconnect_throws client of
                  None \<Rightarrow> []
                | Some err \<Rightarrow> [Error (''[dingtalk] failed to disconnect client: '' @ err)])
             @ [ResolveCalled ?n]"
    using assms(4)
    by (simp add: closure_defs Let_def entered_def fresh_session_def split: option.splits)
  show ?thesis
    using finalizeResolve_slot [OF live cur] finalizeResolve_sessions(3) [OF live pend]
    by (simp add: run isMonitorActive_def getCurrentAccountId_def tr)
qed

theorem start_with_aborted_signal_witness:
  "\<not> isMonitorActive signal_7_fired
   \<and> aborted (signals signal_7_fired 7)
   \<and> fst (monitorDingtalkProvider accept_config (start_opts (Some ''A'') (Some 7)) signal_7_fired)
       = Inr 0
   \<and> session_promise
        (sessions (snd (monitorDingtalkProvider accept_config (start_opts (Some ''A'') (Some 7))
                          signal_7_fired)) 0) = Resolved
   \<and> \<not> isMonitorActive
          (snd (monitorDingtalkProvider accept_config (start_opts (Some ''A'') (Some 7))
                  signal_7_fired))
   \<and> trace (snd (monitorDingtalkProvider accept_config (start_opts (Some ''A'') (Some 7))
                    signal_7_fired))
       = [Log ''[dingtalk] starting Stream connection for account A...'',
          RemoveEventListener 7 0, Disconnect 0, ResolveCalled 0]"
proof -
  have f: "currentClient signal_7_fired = None" "aborted (signals signal_7_fired 7)"
    "next_handle signal_7_fired = 0" "trace signal_7_fired = []"
    by (simp_all add: signal_7_fired_def abort_fires_def initial_state_def)
  have a: "\<not> isMonitorActive signal_7_fired"
    by (simp add: isMonitorActive_def f)
  have c: "dingtalkCfg (start_opts (Some ''A'') (Some 7)) = Some ()"
    by (simp add: dingtalkCfg_def start_opts_def)
  have k: "accept_config () = Inr no_client"
    by (simp add: accept_config_def)
  have g: "opts_abortSignal (start_opts (Some ''A'') (Some 7)) = Some 7"
    by (simp add: start_opts_def)
  from start_with_aborted_signal [where create = accept_config, OF a c k g f(2)] a f
  show ?thesis
    by (simp add: accountId_of_def start_opts_def no_client_def)
qed

text \<open>
  While the session of an earlier start holds the slot, the body of a start for the
  account of the running session returns the promise of that session, still pending, and
  changes nothing but the log.
\<close>

lemma body_returns_current_promise:
  assumes "st0 = exec create acts initial_state"
      and "monitorDingtalkProvider create opts st0 = (Inr p, st1)"
      and "st = exec create later st1"
      and "currentClient st = Some p"
      and "getCurrentAccountId st = Some (accountId_of opts')"
  shows "monitorDingtalkProvider create opts' st
           = (Inr p, runtime_log (reuse_line (accountId_of opts')) st)
       \<and> session_promise (sessions st p) = Pending"
proof -
  have "monitor_inv st0"
    unfolding assms(1) by (rule monitor_inv_exec [OF monitor_inv_initial])
  then have "monitor_inv (snd (monitorDingtalkProvider create opts st0))"
    by (rule monitor_inv_start)
  then have "monitor_inv st"
    unfolding assms(3) by (simp add: assms(2) monitor_inv_exec)
  with assms(4) have "currentPromise st = Some p" and "session_promise (sessions st p) = Pending"
    by (simp_all add: monitor_inv_def slot_inv_def)
  with assms(4,5) show ?thesis
    by (simp add: monitorDingtalkProvider_def getCurrentAccountId_def reuse_monitor_def
          runtime_log_def emit_def)
qed

lemma first_start_eval:
  "first_start
     = (0, [Inr 0], exec accept_config [Start (start_opts (Some ''A'') None)] initial_state)"
  by (simp add: first_start_def monitorDingtalkProvider_async_def split: prod.splits)
     (simp add: eval_defs)

lemma session_plain_fields:
  "currentClient (exec accept_config [Start (start_opts (Some ''A'') None)] initial_state) = Some 0"
  "currentAccountId (exec accept_config [Start (start_opts (Some ''A'') None)] initial_state)
     = Some ''A''"
  "currentPromise (exec accept_config [Start (start_opts (Some ''A'') None)] initial_state) = Some 0"
  by (simp_all add: eval_defs)

text \<open>
  The two calls do not return the same promise object: with a session active for
  account \<open>A\<close>, the second start for \<open>A\<close> hands its caller a promise made by that call,
  another one than the first call made.
\<close>

theorem second_start_is_another_promise:
  "isMonitorActive (snd (snd first_start))
   \<and> getCurrentAccountId (snd (snd first_start)) = Some ''A''
   \<and> accountId_of (start_opts (Some ''A'') None) = ''A''
   \<and> fst first_start = 0
   \<and> fst second_start = 1
   \<and> fst second_start \<noteq> fst first_start"
proof -
  have "fst second_start = 1"
    by (simp add: second_start_def monitorDingtalkProvider_async_def first_start_eval
          split: prod.splits)
  then show ?thesis
    by (simp add: first_start_eval isMonitorActive_def getCurrentAccountId_def eval_defs)
qed

text \<open>
  Claim C5, as amended. A start handed its caller a promise that was resolved with the
  session promise \<open>p\<close>. Later, while the session of that start still holds the slot, a
  start for the account of the running session hands its caller a new promise, another
  object than the first, resolved with the very same \<open>p\<close>, which is still pending: the
  two promises settle together. The call changes nothing but the log: no client is
  created and no call is made on any client.
\<close>

theorem same_account_start_follows_same_promise:
  assumes "st0 = exec create acts initial_state"
      and "monitorDingtalkProvider_async create opts (ps0, st0) = (w1, ps1, st1)"
      and "ps1 ! w1 = Inr p"
      and "st = exec create later st1"
      and "currentClient st = Some p"
      and "getCurrentAccountId st = Some (accountId_of opts')"
      and "length ps1 \<le> length ps"
  shows "monitorDingtalkProvider_async create opts' (ps, st)
           = (length ps, ps @ [Inr p], runtime_log (reuse_line (accountId_of opts')) st)
       \<and> length ps \<noteq> w1
       \<and> session_promise (sessions st p) = Pending"
proof -
  obtain outcome where body: "monitorDingtalkProvider create opts st0 = (outcome, st1)"
    and w1: "w1 = length ps0" and ps1: "ps1 = ps0 @ [outcome]"
    using assms(2) by (auto simp: monitorDingtalkProvider_async_def split: prod.splits)
  from assms(3) have "outcome = Inr p"
    by (simp add: w1 ps1)
  with body have first: "monitorDingtalkProvider create opts st0 = (Inr p, st1)"
    by simp
  note again = body_returns_current_promise [OF assms(1) first assms(4,5,6)]
  from assms(7) have "length ps \<noteq> w1"
    by (simp add: w1 ps1)
  with again show ?thesis
    by (simp add: monitorDingtalkProvider_async_def)
qed

theorem same_account_start_follows_same_promise_witness:
  "monitorDingtalkProvider_async accept_config (start_opts (Some ''A'') None) ([], initial_state)
     = first_start
   \<and> fst (snd first_start) ! fst first_start = Inr 0
   \<and> currentClient (exec accept_config [Deliver 0 0 0 hello_event] (snd (snd first_start)))
       = Some 0
   \<and> monitorDingtalkProvider_async accept_config (start_opts (Some ''A'') (Some 7))
        (fst (snd first_start), exec accept_config [Deliver 0 0 0 hello_event] (snd (snd first_start)))
       = (1, [Inr 0, Inr 0],
          runtime_log (reuse_line ''A'')
            (exec accept_config [Deliver 0 0 0 hello_event] (snd (snd first_start))))
   \<and> session_promise
        (sessions (exec accept_config [Deliver 0 0 0 hello_event] (snd (snd first_start))) 0)
       = Pending"
proof -
  let ?s1 = "exec accept_config [Start (start_opts (Some ''A'') None)] initial_state"
  let ?st = "exec accept_config [Deliver 0 0 0 hello_event] ?s1"
  have call: "monitorDingtalkProvider_async accept_config (start_opts (Some ''A'') None)
                ([], initial_state) = (0, [Inr 0], ?s1)"
    using first_start_eval by (simp add: first_start_def)
  have lc: "lifecycle ?st = lifecycle ?s1"
    by (simp add: lifecycle_def lifecycle_calls_def robot_callback_def robot_callback_try_def
          Let_def runtime_log_def runtime_error_def split: sum.splits)
  then have cur: "currentClient ?st = Some 0" and acct: "getCurrentAccountId ?st = Some ''A''"
    using session_plain_fields by (simp_all add: lifecycle_def getCurrentAccountId_def)
  have o: "accountId_of (start_opts (Some ''A'') (Some 7)) = ''A''"
    by (simp add: accountId_of_def start_opts_def)
  from same_account_start_follows_same_promise
         [of initial_state accept_config "[]" "start_opts (Some ''A'') None" "[]" 0 "[Inr 0]" ?s1
            0 ?st "[Deliver 0 0 0 hello_event]" "start_opts (Some ''A'') (Some 7)" "[Inr 0]"]
       call cur acct o
  show ?thesis
    by (simp add: first_start_eval first_start_def [symmetric])
qed

lemma other_account_is_busy:
  assumes "isMonitorActive st" and "getCurrentAccountId st = Some running"
    and "running \<noteq> []" and "accountId_of opts \<noteq> running"
  shows "monitorDingtalkProvider create opts st
           = (Inl (''DingTalk already running for account '' @ running), st)"
  using assms
  by (simp add: monitorDingtalkProvider_def isMonitorActive_def getCurrentAccountId_def
        reuse_monitor_def reuse_line_def)

text \<open>
  Claim C4. A session started for the empty account id is active, and a start for
  account \<open>B\<close> does not fail: the guard \<open>currentAccountId &&\<close> is falsy for the empty
  string, so the call logs the reuse and returns the promise of the running session.
  For a running account id that is not empty the start does fail and leaves the state
  as it was (\<open>other_account_is_busy\<close> above).
\<close>

theorem empty_account_id_not_busy:
  "isMonitorActive session_unnamed
   \<and> getCurrentAccountId session_unnamed = Some []
   \<and> accountId_of (start_opts (Some ''B'') None) = ''B''
   \<and> monitorDingtalkProvider accept_config (start_opts (Some ''B'') None) session_unnamed
       = (Inr 0, runtime_log (reuse_line ''B'') session_unnamed)"
  by (simp add: session_unnamed_def eval_defs isMonitorActive_def getCurrentAccountId_def)

section \<open>The capacity of the cache\<close>



















end
